theory Spec2Isabelle
  imports Complex_Main "HOL-Library.Sublist" "HOL-Library.AList" "HOL-Library.Log_Nat"
begin

section \<open>Python values\<close>

text \<open>
  The agent passes JSON-like values around (entities extracted by the language model,
  validation verdicts, plan steps). They are modelled by one datatype; a \<open>float\<close> in
  such a value is a finite number, \<open>int\<close> is unbounded as in Python.
\<close>

datatype pyval =
    PNone
  | PBool bool
  | PInt int
  | PFloat real
  | PStr string
  | PList "pyval list"
  | PDict "(string \<times> pyval) list"

text \<open>Python truthiness, as \<open>if v:\<close> and \<open>not v\<close> read it.\<close>

fun truthy :: "pyval \<Rightarrow> bool" where
  "truthy PNone = False"
| "truthy (PBool b) = b"
| "truthy (PInt i) = (i \<noteq> 0)"
| "truthy (PFloat r) = (r \<noteq> 0)"
| "truthy (PStr s) = (s \<noteq> [])"
| "truthy (PList l) = (l \<noteq> [])"
| "truthy (PDict d) = (d \<noteq> [])"

text \<open>\<open>d.get(key, default)\<close> on an entry that may be absent (\<open>None\<close> = no such key).\<close>

definition get_or :: "'a option \<Rightarrow> 'a \<Rightarrow> 'a" where
  "get_or entry dflt = (case entry of None \<Rightarrow> dflt | Some v \<Rightarrow> v)"

text \<open>\<open>d.get(key)\<close> read for its truth value: an absent key gives \<open>None\<close>, which is falsy.\<close>

definition get_truthy :: "pyval option \<Rightarrow> bool" where
  "get_truthy entry = truthy (get_or entry PNone)"

text \<open>A dictionary with string keys (a parsed JSON object), in insertion order.\<close>

type_synonym pydict = "(string \<times> pyval) list"

definition dict_get :: "pydict \<Rightarrow> string \<Rightarrow> pyval \<Rightarrow> pyval" where
  "dict_get d k dflt = get_or (map_of d k) dflt"

text \<open>The exceptions the modelled code can raise.\<close>

datatype py_error =
    TypeError
  | ValueError
  | KeyError
  | IndexError
  | AttributeError
  | ZeroDivisionError
  | OverflowError

text \<open>
  An \<open>int\<close> converts to a \<open>float\<close> unless it rounds past the largest double, which is
  \<open>2 ^ 1024 - 2 ^ 971\<close>: from \<open>2 ^ 1024 - 2 ^ 970\<close> on, \<open>float(i)\<close>, \<open>i / 10.0\<close> and
  \<open>format(i, '.1f')\<close> raise \<open>OverflowError\<close>.
\<close>

definition int_fits_float :: "int \<Rightarrow> bool" where
  "int_fits_float i = (\<bar>i\<bar> < 2 ^ 1024 - 2 ^ 970)"

text \<open>
  \<open>f"{v:.2f}"\<close> and \<open>v / 10.0\<close>: fine for a \<open>bool\<close>, a \<open>float\<close> and an \<open>int\<close> that fits;
  anything else raises.
\<close>

definition format_float :: "pyval \<Rightarrow> py_error option" where
  "format_float v =
     (case v of
        PBool _ \<Rightarrow> None
      | PFloat _ \<Rightarrow> None
      | PInt i \<Rightarrow> (if int_fits_float i then None else Some OverflowError)
      | PStr _ \<Rightarrow> Some ValueError
      | _ \<Rightarrow> Some TypeError)"

text \<open>\<open>len(v)\<close>; \<open>None\<close> stands for the \<open>TypeError\<close> of a value without a length.\<close>

definition py_len :: "pyval \<Rightarrow> nat option" where
  "py_len v =
     (case v of
        PStr s \<Rightarrow> Some (length s)
      | PList l \<Rightarrow> Some (length l)
      | PDict d \<Rightarrow> Some (length d)
      | _ \<Rightarrow> None)"

text \<open>\<open>v[:n]\<close> works on strings and lists only.\<close>

definition sliceable :: "pyval \<Rightarrow> bool" where
  "sliceable v = (case v of PStr _ \<Rightarrow> True | PList _ \<Rightarrow> True | _ \<Rightarrow> False)"

text \<open>
  \<open>xs[i]\<close> on a list, with Python's negative indices; out of range raises \<open>IndexError\<close>.
\<close>

definition list_index :: "'a list \<Rightarrow> int \<Rightarrow> py_error + 'a" where
  "list_index xs i =
     (if 0 \<le> i \<and> i < int (length xs) then Inr (xs ! nat i)
      else if i < 0 \<and> - int (length xs) \<le> i then Inr (xs ! nat (int (length xs) + i))
      else Inl IndexError)"

text \<open>\<open>xs[:k]\<close>: a negative \<open>k\<close> counts from the end.\<close>

definition slice_to :: "'a list \<Rightarrow> int \<Rightarrow> 'a list" where
  "slice_to xs k =
     (if 0 \<le> k then take (nat k) xs else take (length xs - nat (- k)) xs)"

section \<open>Floating point numbers\<close>

text \<open>
  Python's \<open>float\<close> is the IEEE 754 binary64 format: a finite value is a multiple of a
  power of two with a significand of at most 53 bits, and every arithmetic operation
  returns the exact result rounded to the nearest such value, ties going to the even
  significand. A finite \<open>float\<close> is modelled by the real number it denotes (the sign of a
  zero is not kept).

  \<open>round_half_even\<close> rounds to the nearest integer, \<open>binade x\<close> is the exponent \<open>e\<close> with
  \<open>2 ^ e \<le> \<bar>x\<bar> < 2 ^ (e + 1)\<close>, \<open>quantum x\<close> the exponent of the last place of the
  format at \<open>x\<close> (not below \<open>- 1074\<close>, where the subnormal numbers begin), and
  \<open>round_double\<close> the rounding of a real number to the format when the exponent range
  is not exceeded.
\<close>

definition round_half_even :: "real \<Rightarrow> int" where
  "round_half_even y =
     (let f = \<lfloor>y\<rfloor>
      in if y - of_int f < 1 / 2 then f
         else if 1 / 2 < y - of_int f then f + 1
         else if even f then f else f + 1)"

definition binade :: "real \<Rightarrow> int" where
  "binade x =
     (if 1 \<le> \<bar>x\<bar> then bitlen \<lfloor>\<bar>x\<bar>\<rfloor> - 1 else - bitlen (\<lceil>1 / \<bar>x\<bar>\<rceil> - 1))"

definition quantum :: "real \<Rightarrow> int" where
  "quantum x = max (binade x - 52) (- 1074)"

definition round_double :: "real \<Rightarrow> real" where
  "round_double x =
     (if x = 0 then 0
      else of_int (round_half_even (x / power_int 2 (quantum x))) * power_int 2 (quantum x))"

text \<open>
  The largest finite value is \<open>2 ^ 1024 - 2 ^ 971\<close>; an exact result of magnitude
  \<open>2 ^ 1024 - 2 ^ 970\<close> or more rounds to an infinity.
\<close>

definition overflows :: "real \<Rightarrow> bool" where
  "overflows x = (2 ^ 1024 - 2 ^ 970 \<le> \<bar>x\<bar>)"

text \<open>What an arithmetic operation can return.\<close>

datatype double = Finite real | PlusInf | MinusInf | NaN

definition to_double :: "real \<Rightarrow> double" where
  "to_double x =
     (if overflows x then (if 0 < x then PlusInf else MinusInf)
      else Finite (round_double x))"

fun dneg :: "double \<Rightarrow> double" where
  "dneg (Finite x) = Finite (- x)"
| "dneg PlusInf = MinusInf"
| "dneg MinusInf = PlusInf"
| "dneg NaN = NaN"

fun dadd :: "double \<Rightarrow> double \<Rightarrow> double" where
  "dadd (Finite x) (Finite y) = to_double (x + y)"
| "dadd (Finite x) PlusInf = PlusInf"
| "dadd (Finite x) MinusInf = MinusInf"
| "dadd PlusInf (Finite y) = PlusInf"
| "dadd PlusInf PlusInf = PlusInf"
| "dadd MinusInf (Finite y) = MinusInf"
| "dadd MinusInf MinusInf = MinusInf"
| "dadd PlusInf MinusInf = NaN"
| "dadd MinusInf PlusInf = NaN"
| "dadd NaN b = NaN"
| "dadd (Finite x) NaN = NaN"
| "dadd PlusInf NaN = NaN"
| "dadd MinusInf NaN = NaN"

definition dsub :: "double \<Rightarrow> double \<Rightarrow> double" where
  "dsub a b = dadd a (dneg b)"

text \<open>The product of an infinity and a finite factor, by the sign of the factor.\<close>

definition scaled_inf :: "double \<Rightarrow> real \<Rightarrow> double" where
  "scaled_inf a x = (if x = 0 then NaN else if 0 < x then a else dneg a)"

fun dmul :: "double \<Rightarrow> double \<Rightarrow> double" where
  "dmul (Finite x) (Finite y) = to_double (x * y)"
| "dmul (Finite x) PlusInf = scaled_inf PlusInf x"
| "dmul (Finite x) MinusInf = scaled_inf MinusInf x"
| "dmul PlusInf (Finite y) = scaled_inf PlusInf y"
| "dmul MinusInf (Finite y) = scaled_inf MinusInf y"
| "dmul PlusInf PlusInf = PlusInf"
| "dmul PlusInf MinusInf = MinusInf"
| "dmul MinusInf PlusInf = MinusInf"
| "dmul MinusInf MinusInf = PlusInf"
| "dmul NaN b = NaN"
| "dmul (Finite x) NaN = NaN"
| "dmul PlusInf NaN = NaN"
| "dmul MinusInf NaN = NaN"

text \<open>
  Division by a divisor that is not zero; \<open>py_div\<close> is Python's \<open>/\<close> on floats, which
  raises \<open>ZeroDivisionError\<close> on a zero divisor whatever the dividend.
\<close>

fun ddiv :: "double \<Rightarrow> double \<Rightarrow> double" where
  "ddiv (Finite x) (Finite y) = to_double (x / y)"
| "ddiv (Finite x) PlusInf = Finite 0"
| "ddiv (Finite x) MinusInf = Finite 0"
| "ddiv PlusInf (Finite y) = (if 0 < y then PlusInf else MinusInf)"
| "ddiv MinusInf (Finite y) = (if 0 < y then MinusInf else PlusInf)"
| "ddiv PlusInf PlusInf = NaN"
| "ddiv PlusInf MinusInf = NaN"
| "ddiv MinusInf PlusInf = NaN"
| "ddiv MinusInf MinusInf = NaN"
| "ddiv NaN b = NaN"
| "ddiv (Finite x) NaN = NaN"
| "ddiv PlusInf NaN = NaN"
| "ddiv MinusInf NaN = NaN"

definition py_div :: "double \<Rightarrow> double \<Rightarrow> py_error + double" where
  "py_div a b = (if b = Finite 0 then Inl ZeroDivisionError else Inr (ddiv a b))"

text \<open>\<open>a <= b\<close> and \<open>a < b\<close>; every comparison with a NaN is false.\<close>

fun dle :: "double \<Rightarrow> double \<Rightarrow> bool" where
  "dle (Finite x) (Finite y) = (x \<le> y)"
| "dle (Finite x) PlusInf = True"
| "dle (Finite x) MinusInf = False"
| "dle PlusInf (Finite y) = False"
| "dle PlusInf PlusInf = True"
| "dle PlusInf MinusInf = False"
| "dle MinusInf (Finite y) = True"
| "dle MinusInf PlusInf = True"
| "dle MinusInf MinusInf = True"
| "dle NaN b = False"
| "dle (Finite x) NaN = False"
| "dle PlusInf NaN = False"
| "dle MinusInf NaN = False"

definition dlt :: "double \<Rightarrow> double \<Rightarrow> bool" where
  "dlt a b = (dle a b \<and> a \<noteq> b)"

text \<open>\<open>max(a, b)\<close> keeps its first argument unless the second is greater.\<close>

definition dmax :: "double \<Rightarrow> double \<Rightarrow> double" where
  "dmax a b = (if dlt a b then b else a)"

section \<open>Product model (product/models.py)\<close>

record ProductDimensions =
  length_cm :: real
  width_cm :: real
  height_cm :: real

record Product =
  pid :: string
  title :: string
  category :: string
  price :: real
  min_price :: real
  stock :: int
  weight :: real
  dimensions :: ProductDimensions
  description :: string
  characteristics :: "(string \<times> string) list"
  warranty :: string
  quality_notes :: string
  bargaining_allowed :: bool
  max_discount_percent :: real
  meeting_locations :: "string list"

definition is_available :: "Product \<Rightarrow> bool" where
  "is_available p = (stock p > 0)"

definition can_bargain :: "Product \<Rightarrow> bool" where
  "can_bargain p = (bargaining_allowed p \<and> max_discount_percent p > 0)"

text \<open>
  The numeric fields of a product are finite floats. \<open>calculate_min_acceptable_price\<close>
  computes \<open>price * (max_discount_percent / 100)\<close>, subtracts it from the price and takes
  the \<open>max\<close> with \<open>min_price\<close>, each step rounding.
\<close>

definition calculate_min_acceptable_price :: "Product \<Rightarrow> double" where
  "calculate_min_acceptable_price p =
     (let discount_amount =
            dmul (Finite (price p)) (ddiv (Finite (max_discount_percent p)) (Finite 100));
          calculated_min = dsub (Finite (price p)) discount_amount
      in dmax calculated_min (Finite (min_price p)))"

definition is_price_acceptable :: "Product \<Rightarrow> real \<Rightarrow> bool" where
  "is_price_acceptable p offered_price =
     dle (calculate_min_acceptable_price p) (Finite offered_price)"

text \<open>
  \<open>calculate_counter_offer\<close> with its default strategy \<open>meet_halfway\<close>, the only one
  the negotiation engine uses; \<open>None\<close> is Python's \<open>None\<close> (accept the offer).
\<close>

definition calculate_counter_offer :: "Product \<Rightarrow> real \<Rightarrow> double option" where
  "calculate_counter_offer p offered_price =
     (if is_price_acceptable p offered_price then None
      else (let min_acceptable = calculate_min_acceptable_price p;
                counter = ddiv (dadd (Finite offered_price) (Finite (price p))) (Finite 2)
            in Some (dmax counter min_acceptable)))"

text \<open>
  \<open>reserve\<close> mutates the product; the model returns the answer together with the
  product after the call.
\<close>

definition reserve :: "Product \<Rightarrow> int \<Rightarrow> bool \<times> Product" where
  "reserve p quantity =
     (if stock p \<ge> quantity then (True, p\<lparr>stock := stock p - quantity\<rparr>)
      else (False, p))"

section \<open>Product repository (product/repository.py)\<close>

text \<open>
  The repository's \<open>products\<close> dictionary, keyed by product id. A Python dictionary keeps
  its insertion order and \<open>list_products\<close> iterates it, so it is an association list; a
  lookup reads the first entry of a key and an assignment replaces it in place.
\<close>

type_synonym ProductRepository = "(string \<times> Product) list"

definition get_product :: "ProductRepository \<Rightarrow> string \<Rightarrow> Product option" where
  "get_product products product_id = map_of products product_id"

text \<open>\<open>list_products()\<close> with its default arguments (no category, not only available).\<close>

definition list_products :: "ProductRepository \<Rightarrow> Product list" where
  "list_products products = map snd products"

text \<open>
  \<open>reserve_product\<close>: the product object stored in the dictionary is mutated in place, so
  the repository after the call holds the updated product under the same key. A pydantic
  model object is always truthy, so \<open>not product\<close> holds exactly for \<open>None\<close>.
\<close>

definition reserve_product ::
  "ProductRepository \<Rightarrow> string \<Rightarrow> int \<Rightarrow> bool \<times> ProductRepository" where
  "reserve_product products product_id quantity =
     (case get_product products product_id of
        None \<Rightarrow> (False, products)
      | Some product \<Rightarrow>
          (let (ok, product') = reserve product quantity
           in (ok, AList.update product_id product' products)))"

text \<open>A sequence of reservation attempts on one product, and on a repository.\<close>

fun reserve_many :: "Product \<Rightarrow> int list \<Rightarrow> Product" where
  "reserve_many p [] = p"
| "reserve_many p (q # qs) = reserve_many (snd (reserve p q)) qs"

fun reserve_products :: "ProductRepository \<Rightarrow> (string \<times> int) list \<Rightarrow> ProductRepository" where
  "reserve_products products [] = products"
| "reserve_products products ((product_id, q) # rest) =
     reserve_products (snd (reserve_product products product_id q)) rest"


section \<open>Negotiation engine (bargaining/negotiation_engine.py)\<close>

text \<open>
  \<open>evaluate_offer\<close> returns a decision, a price and an explanation. The explanation is a
  phrase drawn by \<open>random.choice\<close> from the rules file (or a built-in default); it decides
  nothing and is left out of the model, which keeps the decision and the price. The
  offered price is a finite float.

  \<open>discount_percent\<close> is \<open>(discount_amount / product.price) * 100\<close> with
  \<open>discount_amount = product.price - offered_price\<close>; a list price of zero makes it a
  division by zero, which Python raises.
\<close>

definition discount_percent :: "Product \<Rightarrow> real \<Rightarrow> py_error + double" where
  "discount_percent product offered =
     (let discount_amount = dsub (Finite (price product)) (Finite offered)
      in case py_div discount_amount (Finite (price product)) of
           Inl e \<Rightarrow> Inl e
         | Inr ratio \<Rightarrow> Inr (dmul ratio (Finite 100)))"

definition evaluate_offer :: "Product \<Rightarrow> real \<Rightarrow> py_error + (string \<times> double option)" where
  "evaluate_offer product offered =
     (if \<not> can_bargain product then Inr (''decline'', None)
      else if offered \<ge> price product then Inr (''accept'', Some (Finite offered))
      else case discount_percent product offered of
        Inl e \<Rightarrow> Inl e
      | Inr percent \<Rightarrow>
          (let max_discount = Finite (max_discount_percent product)
           in if dle percent max_discount then Inr (''accept'', Some (Finite offered))
              else if dle percent (dmul max_discount (Finite 1.5)) then
                Inr (''counter_offer'', calculate_counter_offer product offered)
              else Inr (''decline'', Some (calculate_min_acceptable_price product))))"

text \<open>
  The order of the three decisions by how favourable they are to the buyer.
\<close>

definition favorability :: "string \<Rightarrow> nat" where
  "favorability decision =
     (if decision = ''accept'' then 2 else if decision = ''counter_offer'' then 1 else 0)"

section \<open>Hybrid retrieval (rag/hybrid_retriever.py)\<close>

text \<open>
  A \<open>str\<close> is a list of characters; a text outside ASCII is taken in its UTF-8 encoding,
  on which \<open>q in t\<close> has the same answer as on the code points, so that \<open>q in t\<close> is
  \<open>sublist q t\<close> (a contiguous part). \<open>str.lower()\<close> and \<open>str.split()\<close> belong to the
  Python runtime and follow the Unicode tables; they are parameters (\<open>str_lower\<close>,
  \<open>str_split\<close>) of the functions below.
\<close>

text \<open>
  The metadata dictionary of a search result: \<open>product_id\<close> (absent in a document stored
  without one), \<open>title\<close>, \<open>category\<close> and \<open>price\<close>. The vector store is filled with
  string product ids.
\<close>

record Metadata =
  md_product_id :: "string option"
  md_title :: string
  md_category :: string
  md_price :: real

record KeywordResult =
  kr_product_id :: string
  kr_score :: real
  kr_title :: string
  kr_metadata :: Metadata

text \<open>
  The score the loop of \<open>_keyword_search\<close> computes for one product. The quotient of
  the two integers, its product with the literal \<open>0.8\<close> and the literal itself are
  rounded; the quotient lies between 0 and 1, so nothing overflows.
\<close>

definition product_score ::
  "(string \<Rightarrow> string) \<Rightarrow> (string \<Rightarrow> string list) \<Rightarrow> string \<Rightarrow> Product \<Rightarrow> real" where
  "product_score str_lower str_split query_lower product =
     (let title_lower = str_lower (title product);
          category_lower = str_lower (category product);
          score =
            (if sublist query_lower title_lower then 1
             else
               (let query_words = str_split query_lower;
                    matches = length (filter (\<lambda>qw. sublist qw title_lower) query_words)
                in if matches > 0
                   then round_double
                          (round_double (real matches / real (length query_words))
                           * round_double 0.8)
                   else 0))
      in if sublist query_lower category_lower then max score 0.5 else score)"

definition keyword_result :: "Product \<Rightarrow> real \<Rightarrow> KeywordResult" where
  "keyword_result product score =
     \<lparr>kr_product_id = pid product, kr_score = score, kr_title = title product,
      kr_metadata =
        \<lparr>md_product_id = Some (pid product), md_title = title product,
         md_category = category product, md_price = price product\<rparr>\<rparr>"

text \<open>
  The loop over the catalogue: a product is appended when its score exceeds the literal
  \<open>0.3\<close>, which is the float nearest to three tenths.
\<close>

fun keyword_loop ::
  "(string \<Rightarrow> string) \<Rightarrow> (string \<Rightarrow> string list) \<Rightarrow> string \<Rightarrow> Product list \<Rightarrow>
   KeywordResult list" where
  "keyword_loop str_lower str_split query_lower [] = []"
| "keyword_loop str_lower str_split query_lower (product # rest) =
     (let score = product_score str_lower str_split query_lower product
      in if score > round_double 0.3
         then keyword_result product score # keyword_loop str_lower str_split query_lower rest
         else keyword_loop str_lower str_split query_lower rest)"

text \<open>
  \<open>results.sort(key=..., reverse=True)\<close> is a stable sort in descending order (equal
  scores keep their order), which is the stable ascending sort on the negated score.
\<close>

definition keyword_search ::
  "(string \<Rightarrow> string) \<Rightarrow> (string \<Rightarrow> string list) \<Rightarrow> ProductRepository \<Rightarrow> string \<Rightarrow> int \<Rightarrow>
   KeywordResult list" where
  "keyword_search str_lower str_split product_repo query top_k =
     (let query_lower = str_lower query;
          all_products = list_products product_repo;
          results = keyword_loop str_lower str_split query_lower all_products
      in slice_to (sort_key (\<lambda>r. - kr_score r) results) top_k)"

record SemanticResult =
  sr_text :: string
  sr_metadata :: Metadata
  sr_score :: real

text \<open>An entry of the dictionary \<open>combined\<close>, which is keyed by product id.\<close>

record Combined =
  c_text :: string
  c_metadata :: Metadata
  c_semantic_score :: real
  c_keyword_score :: real

text \<open>
  The first loop of \<open>_combine_results\<close>: every semantic result with a truthy product id
  is stored under that id, with keyword score 0.
\<close>

fun semantic_loop ::
  "(string \<times> Combined) list \<Rightarrow> SemanticResult list \<Rightarrow> (string \<times> Combined) list" where
  "semantic_loop combined [] = combined"
| "semantic_loop combined (result # rest) =
     (case md_product_id (sr_metadata result) of
        None \<Rightarrow> semantic_loop combined rest
      | Some product_id \<Rightarrow>
          (if product_id \<noteq> [] then
             semantic_loop
               (AList.update product_id
                  \<lparr>c_text = sr_text result, c_metadata = sr_metadata result,
                   c_semantic_score = sr_score result, c_keyword_score = 0\<rparr>
                  combined)
               rest
           else semantic_loop combined rest))"

text \<open>
  The second loop: a keyword result either sets the keyword score of the entry its
  product already has, or adds an entry with semantic score 0 when the repository knows
  the product. The entry's text comes from \<open>_format_product\<close>, a parameter here.
\<close>

fun keyword_merge_loop ::
  "(Product \<Rightarrow> string) \<Rightarrow> ProductRepository \<Rightarrow> (string \<times> Combined) list \<Rightarrow>
   KeywordResult list \<Rightarrow> (string \<times> Combined) list" where
  "keyword_merge_loop format_product product_repo combined [] = combined"
| "keyword_merge_loop format_product product_repo combined (result # rest) =
     (let product_id = kr_product_id result
      in case map_of combined product_id of
           Some entry \<Rightarrow>
             keyword_merge_loop format_product product_repo
               (AList.update product_id (entry\<lparr>c_keyword_score := kr_score result\<rparr>) combined)
               rest
         | None \<Rightarrow>
             (case get_product product_repo product_id of
                Some product \<Rightarrow>
                  keyword_merge_loop format_product product_repo
                    (AList.update product_id
                       \<lparr>c_text = format_product product, c_metadata = kr_metadata result,
                        c_semantic_score = 0, c_keyword_score = kr_score result\<rparr>
                       combined)
                    rest
              | None \<Rightarrow> keyword_merge_loop format_product product_repo combined rest))"

text \<open>A fused match, as \<open>_combine_results\<close> and \<open>retrieve\<close> return it (\<open>r_id\<close> is key \<open>id\<close>).\<close>

record ScoredMatch =
  r_text :: string
  r_metadata :: Metadata
  score :: real
  semantic_score :: real
  keyword_score :: real
  r_id :: string

record HybridRetriever =
  hr_product_repo :: ProductRepository
  hr_semantic_weight :: double
  hr_keyword_weight :: double
  hr_use_query_expansion :: bool
  hr_use_llm_reranking :: bool
  hr_top_k :: int
  hr_min_score :: real

text \<open>
  The constructor. The repository and the settings \<open>rag_top_k\<close> and \<open>rag_min_score\<close> are
  process-wide singletons in the source and parameters here; the two weights given are
  finite floats. Their sum and the two quotients are rounded; a sum of zero makes the
  normalisation a division by zero.
\<close>

definition HybridRetriever_init ::
  "ProductRepository \<Rightarrow> int \<Rightarrow> real \<Rightarrow> real \<Rightarrow> real \<Rightarrow> bool \<Rightarrow> bool \<Rightarrow>
   py_error + HybridRetriever" where
  "HybridRetriever_init repo rag_top_k rag_min_score sw kw use_query_expansion use_llm_reranking =
     (let total = dadd (Finite sw) (Finite kw)
      in case py_div (Finite sw) total of
           Inl e \<Rightarrow> Inl e
         | Inr semantic \<Rightarrow>
             (case py_div (Finite kw) total of
                Inl e \<Rightarrow> Inl e
              | Inr keyword \<Rightarrow>
                  Inr \<lparr>hr_product_repo = repo,
                       hr_semantic_weight = semantic,
                       hr_keyword_weight = keyword,
                       hr_use_query_expansion = use_query_expansion,
                       hr_use_llm_reranking = use_llm_reranking,
                       hr_top_k = rag_top_k,
                       hr_min_score = rag_min_score\<rparr>))"

text \<open>
  The last loop of \<open>_combine_results\<close>: the weighted sum of the two partial scores, in
  float arithmetic.
\<close>

definition combined_score :: "HybridRetriever \<Rightarrow> Combined \<Rightarrow> double" where
  "combined_score self data =
     dadd (dmul (Finite (c_semantic_score data)) (hr_semantic_weight self))
          (dmul (Finite (c_keyword_score data)) (hr_keyword_weight self))"

text \<open>
  The scores of a fused match are finite numbers: the model follows the fusion as long
  as every combined score is finite, and stops (\<open>None\<close>) where the code would go on with
  an infinity or a NaN as a score.
\<close>

definition final_result :: "HybridRetriever \<Rightarrow> string \<times> Combined \<Rightarrow> ScoredMatch option" where
  "final_result self item =
     (let data = snd item
      in case combined_score self data of
           Finite s \<Rightarrow>
             Some \<lparr>r_text = c_text data, r_metadata = c_metadata data, score = s,
                   semantic_score = c_semantic_score data,
                   keyword_score = c_keyword_score data,
                   r_id = ''product_'' @ fst item\<rparr>
         | _ \<Rightarrow> None)"

definition combine_results ::
  "(Product \<Rightarrow> string) \<Rightarrow> HybridRetriever \<Rightarrow> SemanticResult list \<Rightarrow> KeywordResult list \<Rightarrow>
   ScoredMatch list option" where
  "combine_results format_product self semantic_results keyword_results =
     (let combined =
            keyword_merge_loop format_product (hr_product_repo self)
              (semantic_loop [] semantic_results) keyword_results
      in case those (map (final_result self) combined) of
           None \<Rightarrow> None
         | Some final_results \<Rightarrow> Some (sort_key (\<lambda>r. - score r) final_results))"

text \<open>
  The threshold filter and the adaptive cutoff of \<open>retrieve\<close>: drop what scores below the
  threshold, then keep what is within 0.3 of the first survivor's score.
\<close>

definition filter_results :: "real \<Rightarrow> ScoredMatch list \<Rightarrow> ScoredMatch list" where
  "filter_results score_threshold combined_results =
     (let filtered_results = filter (\<lambda>r. score r \<ge> score_threshold) combined_results
      in case filtered_results of
           [] \<Rightarrow> filtered_results
         | first # _ \<Rightarrow>
             (let top_score = score first;
                  adaptive_threshold = max score_threshold (top_score - 0.3)
              in filter (\<lambda>r. score r \<ge> adaptive_threshold) filtered_results))"

text \<open>
  \<open>retrieve\<close>. The query expander, the vector store and the reranker call external
  services and are parameters. \<open>top_k or self.top_k\<close> and \<open>min_score or self.min_score\<close>
  fall back to the retriever's settings when the argument is absent, \<open>0\<close> or \<open>0.0\<close>.
\<close>

definition retrieve ::
  "(string \<Rightarrow> string) \<Rightarrow> (string \<Rightarrow> string list) \<Rightarrow>
   (string \<Rightarrow> string) \<Rightarrow> (string \<Rightarrow> int \<Rightarrow> SemanticResult list) \<Rightarrow>
   (string \<Rightarrow> ScoredMatch list \<Rightarrow> ScoredMatch list) \<Rightarrow> (Product \<Rightarrow> string) \<Rightarrow>
   HybridRetriever \<Rightarrow> string \<Rightarrow> int option \<Rightarrow> real option \<Rightarrow> ScoredMatch list option" where
  "retrieve str_lower str_split expand vector_search rerank format_product self query top_k
     min_score =
     (let k = (case top_k of
                 Some t \<Rightarrow> (if t \<noteq> 0 then t else hr_top_k self)
               | None \<Rightarrow> hr_top_k self);
          score_threshold =
            (case min_score of
               Some m \<Rightarrow> (if m \<noteq> 0 then m else hr_min_score self)
             | None \<Rightarrow> hr_min_score self);
          search_query = (if hr_use_query_expansion self then expand query else query);
          semantic_results = vector_search search_query (k * 2);
          keyword_results =
            keyword_search str_lower str_split (hr_product_repo self) search_query (k * 2)
      in case combine_results format_product self semantic_results keyword_results of
           None \<Rightarrow> None
         | Some combined_results \<Rightarrow>
             (let reranked =
                    (if hr_use_llm_reranking self \<and> length combined_results > 2
                     then rerank query combined_results else combined_results);
                  filtered_results = filter_results score_threshold reranked
              in Some (slice_to filtered_results k)))"

section \<open>Slots and intents (dialogue/slot_manager.py)\<close>

datatype Intent =
    PRODUCT_INFO
  | STOCK_CHECK
  | DELIVERY_QUESTION
  | WARRANTY_QUESTION
  | BARGAINING
  | MEETING_PLANNING
  | GENERAL_QUESTION

text \<open>
  The fields of \<open>Slots\<close> are declared optional strings and floats, but the model class
  does not validate assignments, so a field holds whatever extraction stores in it:
  every field is a Python value, \<open>PNone\<close> being \<open>None\<close>.
\<close>

record Slots =
  product_id :: pyval
  product_name :: pyval
  product_color :: pyval
  product_memory :: pyval
  product_variant :: pyval
  offered_price :: pyval
  agreed_price :: pyval
  meeting_location :: pyval
  meeting_date :: pyval
  meeting_time :: pyval
  delivery_service :: pyval
  delivery_address :: pyval
  city :: pyval
  user_preference :: pyval

fun REQUIREMENTS :: "Intent \<Rightarrow> string list" where
  "REQUIREMENTS PRODUCT_INFO = []"
| "REQUIREMENTS STOCK_CHECK = []"
| "REQUIREMENTS DELIVERY_QUESTION = [''product_id'']"
| "REQUIREMENTS WARRANTY_QUESTION = [''product_id'']"
| "REQUIREMENTS BARGAINING = [''product_id'', ''offered_price'']"
| "REQUIREMENTS MEETING_PLANNING =
     [''product_id'', ''meeting_location'', ''meeting_date'', ''meeting_time'']"
| "REQUIREMENTS GENERAL_QUESTION = []"

text \<open>\<open>getattr(slots, slot_name, None)\<close>.\<close>

definition slot_value :: "Slots \<Rightarrow> string \<Rightarrow> pyval" where
  "slot_value slots slot_name =
     (if slot_name = ''product_id'' then product_id slots
      else if slot_name = ''product_name'' then product_name slots
      else if slot_name = ''product_color'' then product_color slots
      else if slot_name = ''product_memory'' then product_memory slots
      else if slot_name = ''product_variant'' then product_variant slots
      else if slot_name = ''offered_price'' then offered_price slots
      else if slot_name = ''agreed_price'' then agreed_price slots
      else if slot_name = ''meeting_location'' then meeting_location slots
      else if slot_name = ''meeting_date'' then meeting_date slots
      else if slot_name = ''meeting_time'' then meeting_time slots
      else if slot_name = ''delivery_service'' then delivery_service slots
      else if slot_name = ''delivery_address'' then delivery_address slots
      else if slot_name = ''city'' then city slots
      else if slot_name = ''user_preference'' then user_preference slots
      else PNone)"

text \<open>
  The loop of \<open>check_slots_completeness\<close> over the required slots: a slot whose value is
  \<open>None\<close> is appended to \<open>missing_slots\<close>, except \<open>product_id\<close> when \<open>product_name\<close> is
  truthy (the loop's \<open>continue\<close>).
\<close>

fun missing_slots_of :: "Slots \<Rightarrow> string list \<Rightarrow> string list" where
  "missing_slots_of slots [] = []"
| "missing_slots_of slots (slot_name # rest) =
     (if slot_value slots slot_name = PNone then
        (if slot_name = ''product_id'' \<and> truthy (product_name slots)
         then missing_slots_of slots rest
         else slot_name # missing_slots_of slots rest)
      else missing_slots_of slots rest)"

definition check_slots_completeness :: "Intent \<Rightarrow> Slots \<Rightarrow> bool \<times> string list" where
  "check_slots_completeness intent slots =
     (let required_slots = REQUIREMENTS intent;
          missing_slots = missing_slots_of slots required_slots;
          is_complete = (length missing_slots = 0)
      in (is_complete, missing_slots))"

definition should_ask_clarification :: "Intent \<Rightarrow> Slots \<Rightarrow> bool" where
  "should_ask_clarification intent slots = (\<not> fst (check_slots_completeness intent slots))"

text \<open>\<open>"k" in entities and entities["k"]\<close>.\<close>

definition present :: "pydict \<Rightarrow> string \<Rightarrow> bool" where
  "present entities k = (case map_of entities k of None \<Rightarrow> False | Some v \<Rightarrow> truthy v)"

text \<open>\<open>entities["k"]\<close>, read only where the key is present.\<close>

definition entity :: "pydict \<Rightarrow> string \<Rightarrow> pyval" where
  "entity entities k = dict_get entities k PNone"

text \<open>
  \<open>float(v)\<close>. Reading a string is left to \<open>str_to_float\<close>, a parameter (\<open>None\<close> where
  Python raises \<open>ValueError\<close>).
\<close>

definition py_float :: "(string \<Rightarrow> real option) \<Rightarrow> pyval \<Rightarrow> py_error + real" where
  "py_float str_to_float v =
     (case v of
        PFloat r \<Rightarrow> Inr r
      | PInt i \<Rightarrow> (if int_fits_float i then Inr (of_int i) else Inl OverflowError)
      | PBool b \<Rightarrow> Inr (if b then 1 else 0)
      | PStr s \<Rightarrow> (case str_to_float s of None \<Rightarrow> Inl ValueError | Some r \<Rightarrow> Inr r)
      | _ \<Rightarrow> Inl TypeError)"

text \<open>
  The \<open>price\<close> step of extraction: \<open>ValueError\<close> and \<open>TypeError\<close> are caught and leave
  the slot as it is; any other exception propagates.
\<close>

definition extract_price ::
  "(string \<Rightarrow> real option) \<Rightarrow> pydict \<Rightarrow> Slots \<Rightarrow> py_error + Slots" where
  "extract_price str_to_float entities updated_slots =
     (if present entities ''price'' then
        (case py_float str_to_float (entity entities ''price'') of
           Inr r \<Rightarrow> Inr (updated_slots\<lparr>offered_price := PFloat r\<rparr>)
         | Inl e \<Rightarrow>
             (if e = ValueError \<or> e = TypeError then Inr updated_slots else Inl e))
      else Inr updated_slots)"

text \<open>The steps before the \<open>price\<close> step, in the order of the source.\<close>

definition extract_before_price :: "pydict \<Rightarrow> Slots \<Rightarrow> Slots" where
  "extract_before_price entities current_slots =
     (let s0 = current_slots;
          s1 = (if present entities ''product_id''
                then s0\<lparr>product_id := entity entities ''product_id''\<rparr> else s0);
          s2 = (if present entities ''product_name''
                then s1\<lparr>product_name := entity entities ''product_name''\<rparr> else s1);
          s3 = (if present entities ''product_color''
                then s2\<lparr>product_color := entity entities ''product_color''\<rparr>
                else if present entities ''color''
                then s2\<lparr>product_color := entity entities ''color''\<rparr> else s2);
          s4 = (if present entities ''product_memory''
                then s3\<lparr>product_memory := entity entities ''product_memory''\<rparr>
                else if present entities ''memory''
                then s3\<lparr>product_memory := entity entities ''memory''\<rparr> else s3);
          s5 = (if present entities ''variant''
                then s4\<lparr>product_variant := entity entities ''variant''\<rparr> else s4)
      in s5)"

text \<open>The steps after the \<open>price\<close> step.\<close>

definition extract_after_price :: "pydict \<Rightarrow> Slots \<Rightarrow> Slots" where
  "extract_after_price entities s6 =
     (let s7 = (if present entities ''location''
                then s6\<lparr>meeting_location := entity entities ''location''\<rparr> else s6);
          s8 = (if present entities ''date''
                then s7\<lparr>meeting_date := entity entities ''date''\<rparr> else s7);
          s9 = (if present entities ''time''
                then s8\<lparr>meeting_time := entity entities ''time''\<rparr> else s8);
          s10 = (if present entities ''delivery_service''
                 then s9\<lparr>delivery_service := entity entities ''delivery_service''\<rparr> else s9);
          s11 = (if present entities ''city''
                 then s10\<lparr>city := entity entities ''city''\<rparr> else s10)
      in s11)"

text \<open>
  \<open>extract_slots_from_entities\<close> works on a deep copy of \<open>current_slots\<close> and returns it;
  the caller's object is not touched.
\<close>

definition extract_slots_from_entities ::
  "(string \<Rightarrow> real option) \<Rightarrow> pydict \<Rightarrow> Slots \<Rightarrow> py_error + Slots" where
  "extract_slots_from_entities str_to_float entities current_slots =
     (case extract_price str_to_float entities (extract_before_price entities current_slots) of
        Inl e \<Rightarrow> Inl e
      | Inr s6 \<Rightarrow> Inr (extract_after_price entities s6))"

section \<open>Agent state and graph nodes (agent/state.py, agent/nodes.py, agent/graph.py)\<close>

text \<open>
  The state of the graph is a dictionary; a node returns the keys it changes and the graph
  merges them into the state. Every key a node below reads with \<open>state.get\<close> may be
  absent, so every field is an option (\<open>None\<close> = no such key). The key \<open>product_id\<close> of
  the state is the field \<open>state_product_id\<close>. Keys that the code fills from parsed JSON
  without a check hold a \<open>pyval\<close>; \<open>intent_confidence\<close> is a number, since
  \<open>classify_intent_node\<close> formats it with \<open>:.2f\<close> and falls back to \<open>0.5\<close> otherwise.
\<close>

record AgentState =
  user_message :: "string option"
  intent :: "pyval option"
  intent_confidence :: "real option"
  slots :: "pydict option"
  slots_complete :: "bool option"
  state_product_id :: "pyval option"
  response :: "pyval option"
  needs_clarification :: "bool option"
  clarification_question :: "pyval option"
  validation_passed :: "pyval option"
  reflection_result :: "pydict option"
  response_quality_score :: "pyval option"
  needs_regeneration :: "bool option"
  regeneration_count :: "int option"
  routing_decision :: "pyval option"
  routing_reasoning :: "pyval option"
  routing_confidence :: "pyval option"
  alternative_routes :: "pyval option"
  execution_plan :: "pyval option"
  current_step :: "int option"
  completed_steps :: "pyval list option"

subsection \<open>Reflection\<close>

text \<open>
  Between the verdict of the validator and the \<open>return\<close>, \<open>reflection_node\<close> logs the
  verdict. These statements raise on a verdict of the wrong shape: \<open>len(issues)\<close> and
  \<open>issues[:3]\<close> when there is no critical error and \<open>issues\<close> is truthy,
  \<open>f"{overall_score:.1f}"\<close>, and \<open>len(issues)\<close> again in the comment of the recorded
  score. The logger and the metrics collector themselves are taken not to raise.
\<close>

definition reflection_logging_raises :: "pydict \<Rightarrow> bool" where
  "reflection_logging_raises validation_result =
     (let overall_score = dict_get validation_result ''overall_score'' (PFloat 7);
          issues = dict_get validation_result ''issues'' (PList []);
          critical_error = dict_get validation_result ''critical_error'' PNone
      in (\<not> truthy critical_error \<and> truthy issues \<and>
            (py_len issues = None \<or> \<not> sliceable issues)) \<or>
         format_float overall_score \<noteq> None \<or>
         py_len issues = None)"

text \<open>
  \<open>reflection_node\<close>; \<open>validation_result\<close> is what \<open>llm_client.validate_response\<close>
  returns for this state (it always returns a dictionary). The whole body is in a
  \<open>try\<close>: the \<open>KeyError\<close> of \<open>state['user_message']\<close> and whatever the logging raises
  lead to the fallback of the \<open>except\<close> branch.
\<close>

definition reflection_node :: "AgentState \<Rightarrow> pydict \<Rightarrow> AgentState" where
  "reflection_node state validation_result =
     (let count = get_or (regeneration_count state) 0 in
      if 2 \<le> count then
        state\<lparr>reflection_result :=
                 Some [(''is_valid'', PBool True), (''reason'', PStr ''max_retries_reached'')],
               response_quality_score := Some (PFloat 6),
               needs_regeneration := Some False\<rparr>
      else if get_or (needs_clarification state) False \<and>
              get_truthy (clarification_question state) then
        state\<lparr>reflection_result :=
                 Some [(''is_valid'', PBool True), (''reason'', PStr ''clarification_question'')],
               response_quality_score := Some (PFloat 8),
               needs_regeneration := Some False\<rparr>
      else if user_message state = None \<or> reflection_logging_raises validation_result then
        state\<lparr>reflection_result :=
                 Some [(''is_valid'', PBool True), (''reason'', PStr ''error_fallback'')],
               response_quality_score := Some (PFloat 7),
               needs_regeneration := Some False\<rparr>
      else
        (let is_valid = dict_get validation_result ''is_valid'' (PBool True);
             overall_score = dict_get validation_result ''overall_score'' (PFloat 7);
             needs_regen = (\<not> truthy is_valid \<and> count < 2)
         in state\<lparr>reflection_result := Some validation_result,
                  response_quality_score := Some overall_score,
                  needs_regeneration := Some needs_regen,
                  regeneration_count := Some (count + (if needs_regen then 1 else 0)),
                  validation_passed := Some is_valid\<rparr>))"

text \<open>\<open>state.get('regeneration_count', 0)\<close>, as \<open>reflection_node\<close> reads the counter.\<close>

definition regenerations_done :: "AgentState \<Rightarrow> int" where
  "regenerations_done state = get_or (regeneration_count state) 0"

definition route_after_reflection :: "AgentState \<Rightarrow> string" where
  "route_after_reflection state =
     (if get_or (needs_regeneration state) False then ''regenerate'' else ''end'')"

text \<open>
  \<open>generate_response_node\<close> returns the key \<open>response\<close> only, on each of its paths (the
  clarification question, the text of the language model, the apology after an error);
  \<open>generated\<close> is that value.
\<close>

definition generate_response_node :: "AgentState \<Rightarrow> pyval \<Rightarrow> AgentState" where
  "generate_response_node state generated = state\<lparr>response := Some generated\<rparr>"

text \<open>
  The cycle of the graph: \<open>generate_response\<close>, then \<open>reflection\<close>, then back to
  \<open>generate_response\<close> on \<open>regenerate\<close> and to the end otherwise. Each round takes the
  text generated and the verdict of the validator in that round; the run stops at the
  first \<open>end\<close>, or when the rounds supplied are used up.
\<close>

fun reflection_rounds :: "AgentState \<Rightarrow> (pyval \<times> pydict) list \<Rightarrow> AgentState" where
  "reflection_rounds state [] = state"
| "reflection_rounds state (turn # rest) =
     (let reflected = reflection_node (generate_response_node state (fst turn)) (snd turn)
      in if route_after_reflection reflected = ''regenerate''
         then reflection_rounds reflected rest
         else reflected)"

text \<open>The number of reflections that asked for a regeneration during such a run.\<close>

fun regenerations :: "AgentState \<Rightarrow> (pyval \<times> pydict) list \<Rightarrow> nat" where
  "regenerations state [] = 0"
| "regenerations state (turn # rest) =
     (let reflected = reflection_node (generate_response_node state (fst turn)) (snd turn)
      in if route_after_reflection reflected = ''regenerate''
         then Suc (regenerations reflected rest)
         else 0)"

subsection \<open>Routing by complexity\<close>

definition route_by_complexity :: "AgentState \<Rightarrow> string" where
  "route_by_complexity state =
     (let confidence = get_or (intent_confidence state) 0.5;
          complete = get_or (slots_complete state) False;
          intent_value = get_or (intent state) (PStr ''general_question'');
          slot_values = get_or (slots state) [];
          complex_intents = [PStr ''bargaining'', PStr ''meeting_planning''];
          product_dependent_intents =
            [PStr ''delivery_question'', PStr ''bargaining'', PStr ''warranty_question'',
             PStr ''meeting_planning''];
          is_complex =
            (if intent_value \<in> set complex_intents then True
             else if intent_value \<in> set product_dependent_intents then
               (let has_product_name = (dict_get slot_values ''product_name'' PNone \<noteq> PNone);
                    has_product_id =
                      (truthy (dict_get slot_values ''product_id'' PNone) \<or>
                       get_truthy (state_product_id state))
                in has_product_name \<and> \<not> has_product_id)
             else confidence < 0.7 \<and> \<not> complete)
      in if is_complex then ''planning'' else ''intelligent_router'')"

subsection \<open>The intelligent router\<close>

text \<open>
  What the chat call of \<open>DeepSeekClient.route_decision\<close> and \<open>json.loads\<close> give: an
  exception, or a parsed JSON value.
\<close>

datatype llm_reply = CallFailed | Parsed pyval

definition valid_nodes :: "string list" where
  "valid_nodes =
     [''rag_search'', ''stock_check'', ''delivery_check'',
      ''bargaining'', ''meeting_planning'', ''generate_response'']"

text \<open>The dictionary of the \<open>except\<close> branch (its Russian reasoning text is abridged).\<close>

definition routing_fallback :: pydict where
  "routing_fallback =
     [(''next_node'', PStr ''rag_search''), (''confidence'', PFloat 0.5),
      (''reasoning'', PStr ''Fallback''), (''alternative_nodes'', PList []),
      (''estimated_complexity'', PStr ''medium'')]"

text \<open>
  \<open>route_decision\<close>: a reply that is not a JSON object has no \<open>get\<close>, which raises inside
  the \<open>try\<close>, like a failed call. The \<open>except\<close> branch first logs with
  \<open>logger.error(..., exc_info=True)\<close>; \<open>AgentLogger.error\<close> passes \<open>exc_info\<close> on inside
  \<open>extra\<close>, which \<open>logging\<close> refuses with a \<open>KeyError\<close> when it builds the record, that is
  when the logger is enabled for errors (\<open>logs_errors\<close>); only a logger that is not
  enabled lets the branch return its dictionary.
\<close>

definition route_decision :: "bool \<Rightarrow> llm_reply \<Rightarrow> py_error + pydict" where
  "route_decision logs_errors reply =
     (case reply of
        Parsed (PDict result) \<Rightarrow>
          Inr (if dict_get result ''next_node'' PNone \<notin> set (map PStr valid_nodes)
               then AList.update ''next_node'' (PStr ''generate_response'') result
               else result)
      | _ \<Rightarrow> (if logs_errors then Inl KeyError else Inr routing_fallback))"

text \<open>
  The step of the execution plan that \<open>intelligent_route_node\<close> follows, if any:
  \<open>Inr (Some action)\<close> when the plan has a step at \<open>current_step\<close>, \<open>Inr None\<close> when the
  node goes on to ask the language model, \<open>Inl\<close> for the exceptions of \<open>.get\<close>, \<open>len\<close> and
  indexing on a plan of the wrong shape.
\<close>

definition plan_action :: "AgentState \<Rightarrow> py_error + pyval option" where
  "plan_action state =
     (let plan_holder = get_or (execution_plan state) PNone in
      if \<not> truthy plan_holder then Inr None
      else case plan_holder of
        PDict holder \<Rightarrow>
          (let plan_steps = dict_get holder ''plan'' PNone;
               step_index = get_or (current_step state) 0
           in if \<not> truthy plan_steps then Inr None
              else case plan_steps of
                PList steps \<Rightarrow>
                  (if step_index < int (length steps) then
                     (case list_index steps step_index of
                        Inl e \<Rightarrow> Inl e
                      | Inr (PDict step) \<Rightarrow> Inr (Some (dict_get step ''action'' PNone))
                      | Inr _ \<Rightarrow> Inl AttributeError)
                   else Inr None)
              | PStr chars \<Rightarrow>
                  (if step_index < int (length chars) then
                     (case list_index chars step_index of
                        Inl e \<Rightarrow> Inl e
                      | Inr _ \<Rightarrow> Inl AttributeError)
                   else Inr None)
              | PDict entries \<Rightarrow>
                  (if step_index < int (length entries) then Inl KeyError else Inr None)
              | _ \<Rightarrow> Inl TypeError)
      | _ \<Rightarrow> Inl AttributeError)"

text \<open>
  The diagnostics printed after the decision of the language model:
  \<open>f"{confidence:.2f}"\<close>, \<open>reasoning[:100]\<close>, and \<open>', '.join(alternatives[:2])\<close> when
  \<open>alternatives\<close> is truthy.
\<close>

definition is_str :: "pyval \<Rightarrow> bool" where
  "is_str v = (case v of PStr _ \<Rightarrow> True | _ \<Rightarrow> False)"

definition routing_print_error :: "pydict \<Rightarrow> py_error option" where
  "routing_print_error routing_result =
     (let confidence = dict_get routing_result ''confidence'' (PFloat 0.5);
          reasoning = dict_get routing_result ''reasoning'' (PStr ''LLM routing decision'');
          alternatives = dict_get routing_result ''alternative_nodes'' (PList [])
      in case format_float confidence of
           Some e \<Rightarrow> Some e
         | None \<Rightarrow>
             if \<not> sliceable reasoning then Some TypeError
             else if \<not> truthy alternatives then None
             else case alternatives of
                    PStr _ \<Rightarrow> None
                  | PList l \<Rightarrow> (if list_all is_str (take 2 l) then None else Some TypeError)
                  | _ \<Rightarrow> Some TypeError)"

text \<open>
  \<open>intelligent_route_node\<close>, merged into the state; \<open>reply\<close> is what the language model
  answers if it is asked. The node has no \<open>try\<close>, so its exceptions propagate (the
  reasoning text of a plan step is abridged).
\<close>

definition intelligent_route_node ::
  "bool \<Rightarrow> AgentState \<Rightarrow> llm_reply \<Rightarrow> py_error + AgentState" where
  "intelligent_route_node logs_errors state reply =
     (if user_message state = None then Inl KeyError
      else case plan_action state of
        Inl e \<Rightarrow> Inl e
      | Inr (Some next_action) \<Rightarrow>
          Inr (state\<lparr>routing_decision := Some next_action,
                     routing_reasoning := Some (PStr ''plan step''),
                     routing_confidence := Some (PFloat 0.9),
                     current_step := Some (get_or (current_step state) 0 + 1),
                     completed_steps :=
                       Some (get_or (completed_steps state) [] @ [next_action])\<rparr>)
      | Inr None \<Rightarrow>
          (case route_decision logs_errors reply of
             Inl e \<Rightarrow> Inl e
           | Inr routing_result \<Rightarrow>
               (case routing_print_error routing_result of
                  Some e \<Rightarrow> Inl e
                | None \<Rightarrow>
                    Inr (state\<lparr>routing_decision :=
                                 Some (dict_get routing_result ''next_node''
                                         (PStr ''rag_search'')),
                               routing_reasoning :=
                                 Some (dict_get routing_result ''reasoning''
                                         (PStr ''LLM routing decision'')),
                               routing_confidence :=
                                 Some (dict_get routing_result ''confidence'' (PFloat 0.5)),
                               alternative_routes :=
                                 Some (dict_get routing_result ''alternative_nodes''
                                         (PList []))\<rparr>))))"

definition valid_routes :: "(string \<times> string) list" where
  "valid_routes =
     [(''rag_search'', ''rag_search''), (''stock_check'', ''stock_check''),
      (''delivery_check'', ''delivery_check''), (''bargaining'', ''bargaining''),
      (''meeting_planning'', ''meeting_planning''),
      (''generate_response'', ''generate_response'')]"

text \<open>A list or a dictionary is not hashable: looking it up in a \<open>dict\<close> raises.\<close>

definition hashable :: "pyval \<Rightarrow> bool" where
  "hashable v = (case v of PList _ \<Rightarrow> False | PDict _ \<Rightarrow> False | _ \<Rightarrow> True)"

definition route_from_intelligent_router :: "AgentState \<Rightarrow> py_error + string" where
  "route_from_intelligent_router state =
     (let decision = get_or (routing_decision state) (PStr ''rag_search'') in
      if \<not> hashable decision then Inl TypeError
      else case decision of
             PStr name \<Rightarrow> Inr (get_or (map_of valid_routes name) ''rag_search'')
           | _ \<Rightarrow> Inr ''rag_search'')"

text \<open>
  The node \<open>intelligent_router\<close> followed by its conditional edge: the action node the
  graph runs next.
\<close>

definition routed_action :: "bool \<Rightarrow> AgentState \<Rightarrow> llm_reply \<Rightarrow> py_error + string" where
  "routed_action logs_errors state reply =
     (case intelligent_route_node logs_errors state reply of
        Inl e \<Rightarrow> Inl e
      | Inr routed \<Rightarrow> route_from_intelligent_router routed)"

section \<open>Example data\<close>

text \<open>
  The examples are ASCII texts. On an ASCII text \<open>str.lower()\<close> replaces each upper-case
  letter by its lower-case letter, and \<open>str.split()\<close> cuts at the runs of the ASCII
  whitespace characters (codes 9 to 13 and 28 to 32) and yields no empty word; these two
  functions stand for \<open>str_lower\<close> and \<open>str_split\<close> in the examples.
\<close>

definition is_upper :: "char \<Rightarrow> bool" where
  "is_upper c = (65 \<le> (of_char c :: nat) \<and> (of_char c :: nat) \<le> 90)"

text \<open>An upper-case ASCII letter and its lower-case letter differ in bit 5 (add 32).\<close>

definition lower_char :: "char \<Rightarrow> char" where
  "lower_char c =
     (if is_upper c then
        (case c of Char b0 b1 b2 b3 b4 b5 b6 b7 \<Rightarrow> Char b0 b1 b2 b3 b4 True b6 b7)
      else c)"

definition ascii_lower :: "string \<Rightarrow> string" where
  "ascii_lower s = map lower_char s"

definition is_ascii_space :: "char \<Rightarrow> bool" where
  "is_ascii_space c = ((of_char c :: nat) \<in> {9, 10, 11, 12, 13, 28, 29, 30, 31, 32})"

fun split_from :: "string \<Rightarrow> string \<Rightarrow> string list" where
  "split_from word [] = (if word = [] then [] else [word])"
| "split_from word (c # cs) =
     (if is_ascii_space c then
        (if word = [] then split_from [] cs else word # split_from [] cs)
      else split_from (word @ [c]) cs)"

definition ascii_split :: "string \<Rightarrow> string list" where
  "ascii_split s = split_from [] s"


definition phone :: Product where
  "phone =
     \<lparr>pid = ''p1'', title = ''iPhone 13 Pro 256GB'', category = ''Smartphones'',
      price = 100, min_price = 80, stock = 2, weight = 1 / 5,
      dimensions = \<lparr>length_cm = 15, width_cm = 7, height_cm = 1\<rparr>,
      description = ''Used phone'', characteristics = [(''color'', ''black'')],
      warranty = ''1 month'', quality_notes = ''good'', bargaining_allowed = True,
      max_discount_percent = 10, meeting_locations = [''Metro South'']\<rparr>"

definition laptop :: Product where
  "laptop =
     \<lparr>pid = ''p2'', title = ''Lenovo ThinkPad laptop'', category = ''Laptops'',
      price = 500, min_price = 450, stock = 1, weight = 2,
      dimensions = \<lparr>length_cm = 35, width_cm = 25, height_cm = 2\<rparr>,
      description = ''Office laptop'', characteristics = [],
      warranty = ''none'', quality_notes = ''good'', bargaining_allowed = False,
      max_discount_percent = 0, meeting_locations = []\<rparr>"

definition empty_slots :: Slots where
  "empty_slots =
     \<lparr>product_id = PNone, product_name = PNone, product_color = PNone,
      product_memory = PNone, product_variant = PNone, offered_price = PNone,
      agreed_price = PNone, meeting_location = PNone, meeting_date = PNone,
      meeting_time = PNone, delivery_service = PNone, delivery_address = PNone,
      city = PNone, user_preference = PNone\<rparr>"

definition known_slots :: Slots where
  "known_slots =
     empty_slots\<lparr>product_id := PStr ''p1'', product_color := PStr ''black'',
                 city := PStr ''Moscow''\<rparr>"

definition new_entities :: pydict where
  "new_entities =
     [(''product_name'', PStr ''iPhone''), (''price'', PInt 90),
      (''color'', PStr ''''), (''city'', PNone)]"

definition scored :: "string \<Rightarrow> real \<Rightarrow> ScoredMatch" where
  "scored i s =
     \<lparr>r_text = ''text of '' @ i,
      r_metadata = \<lparr>md_product_id = Some i, md_title = i, md_category = ''Smartphones'',
                    md_price = 100\<rparr>,
      score = s, semantic_score = s, keyword_score = s, r_id = ''product_'' @ i\<rparr>"

definition four_matches :: "ScoredMatch list" where
  "four_matches =
     [scored ''p1'' 0.9, scored ''p2'' 0.7, scored ''p3'' 0.55, scored ''p4'' 0.4]"

definition old_phone :: Product where
  "old_phone = phone\<lparr>pid := ''p3'', title := ''iPhone 8 64GB'', price := 40, min_price := 30\<rparr>"

definition phone_case :: Product where
  "phone_case =
     phone\<lparr>pid := ''p4'', title := ''Case for iPhone'', category := ''Accessories'',
           price := 5, min_price := 4\<rparr>"

definition tablet :: Product where
  "tablet =
     phone\<lparr>pid := ''p5'', title := ''Galaxy Tab'', category := ''Tablets'',
           min_price := 90, max_discount_percent := 7\<rparr>"

definition trinket :: Product where
  "trinket =
     phone\<lparr>pid := ''p6'', title := ''Key ring'', category := ''Accessories'',
           price := 3, min_price := 1, max_discount_percent := 40\<rparr>"

definition catalogue :: ProductRepository where
  "catalogue = [(''p1'', phone), (''p2'', laptop), (''p3'', old_phone), (''p4'', phone_case)]"

definition example_retriever :: HybridRetriever where
  "example_retriever =
     \<lparr>hr_product_repo = catalogue, hr_semantic_weight = Finite (round_double 0.4),
      hr_keyword_weight = Finite (round_double 0.6),
      hr_use_query_expansion = True, hr_use_llm_reranking = True, hr_top_k = 3,
      hr_min_score = 0.5\<rparr>"

definition semantic_hit :: "Product \<Rightarrow> real \<Rightarrow> SemanticResult" where
  "semantic_hit p s =
     \<lparr>sr_text = description p,
      sr_metadata = \<lparr>md_product_id = Some (pid p), md_title = title p,
                     md_category = category p, md_price = price p\<rparr>,
      sr_score = s\<rparr>"

definition semantic_hits :: "SemanticResult list" where
  "semantic_hits = [semantic_hit phone 0.8, semantic_hit laptop 0.5]"

definition keyword_hits :: "KeywordResult list" where
  "keyword_hits = [keyword_result phone 1, keyword_result old_phone 1]"

text \<open>
  The state a conversation turn starts from (\<open>ConsoleInterface\<close>): the reflection and
  planning keys are absent.
\<close>

definition initial_state :: AgentState where
  "initial_state =
     \<lparr>user_message = Some ''Is the iPhone still available?'',
      intent = Some PNone, intent_confidence = Some 0, slots = Some [],
      slots_complete = Some False, state_product_id = Some PNone,
      response = Some (PStr []), needs_clarification = Some False,
      clarification_question = Some PNone, validation_passed = Some (PBool True),
      reflection_result = None, response_quality_score = None,
      needs_regeneration = None, regeneration_count = None,
      routing_decision = None, routing_reasoning = None, routing_confidence = None,
      alternative_routes = None, execution_plan = None, current_step = None,
      completed_steps = None\<rparr>"

definition rejecting_verdict :: pydict where
  "rejecting_verdict =
     [(''is_valid'', PBool False), (''overall_score'', PFloat 3),
      (''issues'', PList [PStr ''wrong price''])]"

definition exhausted_state :: AgentState where
  "exhausted_state = initial_state\<lparr>regeneration_count := Some 2\<rparr>"

definition delivery_state :: AgentState where
  "delivery_state =
     initial_state
       \<lparr>intent := Some (PStr ''delivery_question''), intent_confidence := Some 0.5,
        slots := Some [(''product_id'', PNone), (''product_name'', PNone),
                       (''delivery_address'', PNone)]\<rparr>"

definition planned_state :: AgentState where
  "planned_state =
     initial_state
       \<lparr>execution_plan :=
          Some (PDict [(''complexity'', PStr ''medium''),
                       (''plan'', PList [PDict [(''step'', PInt 1),
                                                (''action'', PStr ''clarification''),
                                                (''goal'', PStr ''ask which phone'')]])]),
        current_step := Some 0, completed_steps := Some []\<rparr>"

definition stray_result :: pydict where
  "stray_result =
     [(''next_node'', PStr ''clarification''), (''confidence'', PFloat 0.8),
      (''reasoning'', PStr ''the product is unclear''),
      (''alternative_nodes'', PList [PStr ''rag_search''])]"

definition stray_reply :: llm_reply where
  "stray_reply = Parsed (PDict stray_result)"


section \<open>Rounding to the float format\<close>

lemma rhe_cases: "round_half_even y = \<lfloor>y\<rfloor> \<or> round_half_even y = \<lfloor>y\<rfloor> + 1"
  by (simp add: round_half_even_def Let_def)

lemma rhe_of_int [simp]: "round_half_even (of_int n) = n"
  by (simp add: round_half_even_def)

lemma rhe_mono: "a \<le> b \<Longrightarrow> round_half_even a \<le> round_half_even b"
proof -
  assume ab: "a \<le> b"
  then have fl: "\<lfloor>a\<rfloor> \<le> \<lfloor>b\<rfloor>" by (rule floor_mono)
  show ?thesis
  proof (cases "\<lfloor>a\<rfloor> = \<lfloor>b\<rfloor>")
    case True
    with ab show ?thesis by (auto simp add: round_half_even_def Let_def)
  next
    case False
    with fl have "\<lfloor>a\<rfloor> + 1 \<le> \<lfloor>b\<rfloor>" by simp
    moreover have "round_half_even a \<le> \<lfloor>a\<rfloor> + 1" using rhe_cases [of a] by auto
    moreover have "\<lfloor>b\<rfloor> \<le> round_half_even b" using rhe_cases [of b] by auto
    ultimately show ?thesis by linarith
  qed
qed

lemma rhe_error: "\<bar>of_int (round_half_even y) - y\<bar> \<le> 1 / 2"
proof -
  have "of_int \<lfloor>y\<rfloor> \<le> y" "y < of_int \<lfloor>y\<rfloor> + 1" by linarith+
  then show ?thesis by (auto simp add: round_half_even_def Let_def)
qed

lemma rhe_minus: "round_half_even (- y) = - round_half_even y"
proof (cases "y = of_int \<lfloor>y\<rfloor>")
  case True
  then obtain n where "y = of_int n" ..
  then show ?thesis by (simp flip: of_int_minus)
next
  case False
  then have c: "\<lceil>y\<rceil> = \<lfloor>y\<rfloor> + 1" by (simp add: ceiling_altdef)
  have f: "\<lfloor>- y\<rfloor> = - \<lfloor>y\<rfloor> - 1" using c by (simp add: ceiling_def)
  have "of_int \<lfloor>y\<rfloor> < y" using False by linarith
  then show ?thesis
    by (auto simp add: round_half_even_def Let_def f)
qed

lemma binade_bounds:
  assumes "x \<noteq> 0"
  shows "power_int 2 (binade x) \<le> \<bar>x\<bar>" and "\<bar>x\<bar> < power_int 2 (binade x + 1)"
proof -
  have both: "power_int 2 (binade x) \<le> \<bar>x\<bar> \<and> \<bar>x\<bar> < power_int 2 (binade x + 1)"
  proof (cases "1 \<le> \<bar>x\<bar>")
    case True
    define n where "n = \<lfloor>\<bar>x\<bar>\<rfloor>"
    have n1: "1 \<le> n" using True by (simp add: n_def)
    then have pos: "0 < n" by simp
    from bitlen_bounds [OF pos]
    have lo: "2 ^ nat (bitlen n - 1) \<le> n" and hi: "n < 2 ^ nat (bitlen n)" by simp_all
    have bl: "1 \<le> bitlen n" using pos by (simp add: bitlen_def floorlog_def)
    have b: "binade x = bitlen n - 1" using True by (simp add: binade_def n_def)
    have "(2::real) ^ nat (bitlen n - 1) \<le> of_int n"
      using lo by (metis of_int_le_iff of_int_numeral of_int_power)
    also have "\<dots> \<le> \<bar>x\<bar>" by (simp add: n_def)
    finally have 1: "power_int 2 (binade x) \<le> \<bar>x\<bar>"
      using bl by (simp add: b power_int_def)
    have "n + 1 \<le> 2 ^ nat (bitlen n)" using hi by simp
    then have "of_int (n + 1) \<le> (2::real) ^ nat (bitlen n)"
      by (metis of_int_le_iff of_int_numeral of_int_power)
    moreover have "\<bar>x\<bar> < of_int (n + 1)" by (simp add: n_def)
    ultimately have "\<bar>x\<bar> < (2::real) ^ nat (bitlen n)" by linarith
    then have 2: "\<bar>x\<bar> < power_int 2 (binade x + 1)"
      using bl by (simp add: b power_int_def)
    from 1 2 show ?thesis ..
  next
    case False
    define y where "y = 1 / \<bar>x\<bar>"
    define m where "m = \<lceil>y\<rceil> - 1"
    have xp: "0 < \<bar>x\<bar>" using assms by simp
    have y1: "1 < y" using False xp by (simp add: y_def)
    have m1: "1 \<le> m" using y1 by (simp add: m_def)
    then have pos: "0 < m" by simp
    from bitlen_bounds [OF pos]
    have lo: "2 ^ nat (bitlen m - 1) \<le> m" and hi: "m < 2 ^ nat (bitlen m)" by simp_all
    have bl: "1 \<le> bitlen m" using pos by (simp add: bitlen_def floorlog_def)
    have b: "binade x = - bitlen m" using False by (simp add: binade_def m_def y_def)
    have my: "of_int m < y" "y \<le> of_int m + 1" by (simp_all add: m_def) linarith+
    have "of_int (m + 1) \<le> (2::real) ^ nat (bitlen m)"
      using hi by (metis of_int_le_iff of_int_numeral of_int_power zless_imp_add1_zle)
    with my have yhi: "y \<le> 2 ^ nat (bitlen m)" by simp
    have "(2::real) ^ nat (bitlen m - 1) \<le> of_int m"
      using lo by (metis of_int_le_iff of_int_numeral of_int_power)
    with my have ylo: "2 ^ nat (bitlen m - 1) < y" by linarith
    have x_eq: "\<bar>x\<bar> = 1 / y" using xp by (simp add: y_def)
    have yp: "0 < y" using y1 by simp
    have 1: "power_int 2 (binade x) \<le> \<bar>x\<bar>"
    proof -
      have "1 / (2::real) ^ nat (bitlen m) \<le> 1 / y"
        using yhi yp by (simp add: frac_le)
      then show ?thesis using bl by (simp add: b x_eq power_int_def field_simps)
    qed
    have 2: "\<bar>x\<bar> < power_int 2 (binade x + 1)"
    proof -
      have "1 / y < 1 / (2::real) ^ nat (bitlen m - 1)"
        using ylo by (simp add: frac_less2)
      moreover have "power_int (2::real) (binade x + 1) = 1 / 2 ^ nat (bitlen m - 1)"
      proof (cases "bitlen m = 1")
        case True
        then show ?thesis by (simp add: b)
      next
        case False
        with bl have "- bitlen m + 1 < 0" by simp
        then show ?thesis
          by (simp add: b power_int_def field_simps)
      qed
      ultimately show ?thesis by (simp add: x_eq)
    qed
    from 1 2 show ?thesis ..
  qed
  from both show "power_int 2 (binade x) \<le> \<bar>x\<bar>" ..
  from both show "\<bar>x\<bar> < power_int 2 (binade x + 1)" ..
qed

lemma power_int_2_less_iff: "power_int (2::real) a < power_int 2 b \<longleftrightarrow> a < b"
  by (metis not_less one_less_numeral_iff power_int_increasing power_int_strict_increasing
      semiring_norm(76) less_eq_real_def)

lemma power_int_2_le_iff: "power_int (2::real) a \<le> power_int 2 b \<longleftrightarrow> a \<le> b"
  by (metis not_less power_int_2_less_iff)

lemma binade_unique:
  assumes "power_int 2 k \<le> \<bar>x\<bar>" and "\<bar>x\<bar> < power_int 2 (k + 1)"
  shows "binade x = k"
proof -
  have "0 < power_int (2::real) k" by simp
  with assms(1) have "0 < \<bar>x\<bar>" by linarith
  then have nz: "x \<noteq> 0" by simp
  from binade_bounds [OF nz] assms
  have "power_int (2::real) (binade x) < power_int 2 (k + 1)"
    and "power_int (2::real) k < power_int 2 (binade x + 1)" by linarith+
  then show ?thesis by (simp add: power_int_2_less_iff)
qed

lemma binade_mono:
  assumes "x \<noteq> 0" and "\<bar>x\<bar> \<le> \<bar>y\<bar>"
  shows "binade x \<le> binade y"
proof -
  from assms have ny: "y \<noteq> 0" by auto
  from binade_bounds(1) [OF assms(1)] binade_bounds(2) [OF ny] assms(2)
  have "power_int (2::real) (binade x) < power_int 2 (binade y + 1)" by linarith
  then show ?thesis by (simp add: power_int_2_less_iff)
qed

lemma binade_minus [simp]: "binade (- x) = binade x"
  by (simp add: binade_def)

lemma quantum_minus [simp]: "quantum (- x) = quantum x"
  by (simp add: quantum_def)

lemma quantum_mono: "x \<noteq> 0 \<Longrightarrow> \<bar>x\<bar> \<le> \<bar>y\<bar> \<Longrightarrow> quantum x \<le> quantum y"
  using binade_mono [of x y] by (simp add: quantum_def)

lemma round_double_minus: "round_double (- x) = - round_double x"
  by (simp add: round_double_def rhe_minus)

lemma round_double_zero [simp]: "round_double 0 = 0"
  by (simp add: round_double_def)

lemma round_double_le_grid:
  assumes "x \<le> of_int n * power_int 2 (quantum x)"
  shows "round_double x \<le> of_int n * power_int 2 (quantum x)"
proof (cases "x = 0")
  case True
  with assms show ?thesis by simp
next
  case False
  have p: "0 < power_int (2::real) (quantum x)" by simp
  from assms have "x / power_int 2 (quantum x) \<le> of_int n"
    using p by (simp add: field_simps)
  then have "round_half_even (x / power_int 2 (quantum x)) \<le> n"
    using rhe_mono [of "x / power_int 2 (quantum x)" "of_int n"] by simp
  then have "real_of_int (round_half_even (x / power_int 2 (quantum x))) \<le> of_int n"
    by simp
  then show ?thesis
    using False p by (simp add: round_double_def)
qed

lemma round_double_ge_grid:
  assumes "of_int n * power_int 2 (quantum x) \<le> x"
  shows "of_int n * power_int 2 (quantum x) \<le> round_double x"
proof -
  from assms have "- x \<le> of_int (- n) * power_int 2 (quantum (- x))" by simp
  from round_double_le_grid [OF this] show ?thesis
    by (simp add: round_double_minus)
qed

lemma round_double_nonneg: "0 \<le> x \<Longrightarrow> 0 \<le> round_double x"
  using round_double_ge_grid [of 0 x] by simp

lemma round_double_nonpos: "x \<le> 0 \<Longrightarrow> round_double x \<le> 0"
  using round_double_le_grid [of x 0] by simp

lemma power_int_2_grid:
  assumes "q \<le> k"
  shows "power_int (2::real) k = of_int (2 ^ nat (k - q)) * power_int 2 q"
proof -
  have "power_int (2::real) k = power_int 2 (k - q) * power_int 2 q"
    by (simp flip: power_int_add)
  also have "power_int (2::real) (k - q) = of_int (2 ^ nat (k - q))"
    using assms by (simp add: power_int_def)
  finally show ?thesis .
qed

lemma round_double_mono_pos:
  assumes "0 < x" and "x \<le> y"
  shows "round_double x \<le> round_double y"
proof -
  from assms have nz: "x \<noteq> 0" "y \<noteq> 0" and ab: "\<bar>x\<bar> \<le> \<bar>y\<bar>" by auto
  have q: "quantum x \<le> quantum y" using quantum_mono [OF nz(1) ab] .
  show ?thesis
  proof (cases "quantum x = quantum y")
    case True
    have p: "0 < power_int (2::real) (quantum y)" by simp
    have "x / power_int 2 (quantum y) \<le> y / power_int 2 (quantum y)"
      using assms(2) p by (simp add: divide_right_mono)
    then have "round_half_even (x / power_int 2 (quantum y))
                 \<le> round_half_even (y / power_int 2 (quantum y))"
      by (rule rhe_mono)
    then have "real_of_int (round_half_even (x / power_int 2 (quantum y)))
                 \<le> real_of_int (round_half_even (y / power_int 2 (quantum y)))"
      by simp
    then show ?thesis
      using nz p by (simp add: round_double_def True mult_right_mono)
  next
    case False
    with q have lt: "quantum x < quantum y" by simp
    then have qy: "quantum y = binade y - 52" and bx: "binade x - 52 < binade y - 52"
      by (auto simp add: quantum_def)
    define T where "T = power_int (2::real) (binade y)"
    have "x < power_int 2 (binade x + 1)" using binade_bounds(2) [OF nz(1)] assms(1) by simp
    also have "\<dots> \<le> T" using bx by (simp add: T_def power_int_2_le_iff)
    finally have xT: "x \<le> T" by simp
    have Ty: "T \<le> y" using binade_bounds(1) [OF nz(2)] assms by (simp add: T_def)
    have gx: "T = of_int (2 ^ nat (binade y - quantum x)) * power_int 2 (quantum x)"
      unfolding T_def using lt qy by (intro power_int_2_grid) simp
    have gy: "T = of_int (2 ^ nat (binade y - quantum y)) * power_int 2 (quantum y)"
      unfolding T_def using qy by (intro power_int_2_grid) simp
    have "round_double x \<le> T"
      using round_double_le_grid [of x "2 ^ nat (binade y - quantum x)"] xT gx by simp
    moreover have "T \<le> round_double y"
      using round_double_ge_grid [of "2 ^ nat (binade y - quantum y)" y] Ty gy by simp
    ultimately show ?thesis by simp
  qed
qed

lemma round_double_mono: "x \<le> y \<Longrightarrow> round_double x \<le> round_double y"
proof -
  assume xy: "x \<le> y"
  consider "0 < x" | "x \<le> 0" "0 \<le> y" | "y < 0" by linarith
  then show ?thesis
  proof cases
    case 1
    then show ?thesis using xy by (rule round_double_mono_pos)
  next
    case 2
    then show ?thesis
      using round_double_nonpos [of x] round_double_nonneg [of y] by simp
  next
    case 3
    then have "0 < - y" "- y \<le> - x" using xy by simp_all
    from round_double_mono_pos [OF this] show ?thesis by (simp add: round_double_minus)
  qed
qed

lemma round_double_error: "\<bar>round_double x - x\<bar> \<le> power_int 2 (quantum x) / 2"
proof (cases "x = 0")
  case True
  then show ?thesis by simp
next
  case False
  define q where "q = power_int (2::real) (quantum x)"
  define a where "a = real_of_int (round_half_even (x / q))"
  have p: "0 < q" by (simp add: q_def)
  have "\<bar>a - x / q\<bar> \<le> 1 / 2" unfolding a_def by (rule rhe_error)
  then have e1: "\<bar>a - x / q\<bar> * q \<le> 1 / 2 * q"
    using p by (intro mult_right_mono) simp_all
  have "(a - x / q) * q = a * q - x" using p by (simp add: field_simps)
  then have e2: "\<bar>a * q - x\<bar> = \<bar>a - x / q\<bar> * q"
    using p by (metis abs_mult abs_of_pos)
  have rd: "round_double x = a * q" using False by (simp add: round_double_def q_def a_def)
  from e1 e2 show ?thesis unfolding rd q_def [symmetric] by linarith
qed

lemma quantum_bound:
  assumes "x \<noteq> 0"
  shows "power_int 2 (quantum x) \<le> max (\<bar>x\<bar> / 2 ^ 52) (power_int 2 (- 1074))"
proof (cases "binade x - 52 \<le> - 1074")
  case True
  then show ?thesis by (simp add: quantum_def max_def)
next
  case False
  then have q: "quantum x = binade x - 52" by (simp add: quantum_def)
  have "power_int (2::real) (binade x - 52) = power_int 2 (binade x) / 2 ^ 52"
    by (simp add: power_int_diff)
  also have "\<dots> \<le> \<bar>x\<bar> / 2 ^ 52"
    using binade_bounds(1) [OF assms] by (simp add: divide_right_mono)
  finally show ?thesis by (simp add: q)
qed

lemma round_double_eval:
  assumes "power_int 2 (e + 52) \<le> \<bar>x\<bar>" and "\<bar>x\<bar> < power_int 2 (e + 53)" and "- 1074 \<le> e"
  shows "round_double x = of_int (round_half_even (x / power_int 2 e)) * power_int 2 e"
proof -
  have "binade x = e + 52" using assms(1,2) by (intro binade_unique) (simp_all add: add.commute)
  then have q: "quantum x = e" using assms(3) by (simp add: quantum_def)
  have "0 < power_int (2::real) (e + 52)" by simp
  with assms(1) have "0 < \<bar>x\<bar>" by linarith
  then have "x \<noteq> 0" by simp
  then show ?thesis by (simp add: round_double_def q)
qed

lemma round_double_exact:
  assumes "\<bar>n\<bar> < 2 ^ 53" and "- 1074 \<le> e"
  shows "round_double (of_int n * power_int 2 e) = of_int n * power_int 2 e"
proof (cases "n = 0")
  case True
  then show ?thesis by simp
next
  case False
  define x where "x = real_of_int n * power_int 2 e"
  have nz: "x \<noteq> 0" using False by (simp add: x_def)
  have n53: "\<bar>real_of_int n\<bar> < 2 ^ 53"
    using assms(1) by (metis of_int_abs of_int_less_iff of_int_numeral of_int_power)
  have "\<bar>x\<bar> = \<bar>real_of_int n\<bar> * power_int 2 e" by (simp add: x_def abs_mult)
  also have "\<dots> < 2 ^ 53 * power_int 2 e"
    using n53 by (intro mult_strict_right_mono) simp_all
  also have "\<dots> = power_int 2 (e + 53)"
    by (simp add: power_int_add)
  finally have lt: "\<bar>x\<bar> < power_int 2 (e + 53)" .
  have "power_int (2::real) (binade x) < power_int 2 (e + 53)"
    using binade_bounds(1) [OF nz] lt by linarith
  then have "binade x < e + 53" by (simp add: power_int_2_less_iff)
  then have q: "quantum x \<le> e" using assms(2) by (simp add: quantum_def)
  have "x / power_int 2 (quantum x) = of_int n * (power_int 2 e / power_int 2 (quantum x))"
    by (simp add: x_def)
  also have "power_int (2::real) e / power_int 2 (quantum x) = of_int (2 ^ nat (e - quantum x))"
    using power_int_2_grid [OF q] by simp
  finally have "x / power_int 2 (quantum x) = of_int (n * 2 ^ nat (e - quantum x))"
    by simp
  then have "round_double x = of_int (n * 2 ^ nat (e - quantum x)) * power_int 2 (quantum x)"
    using nz by (simp add: round_double_def del: of_int_mult of_int_power)
  also have "\<dots> = of_int n * power_int 2 e"
    using power_int_2_grid [OF q] by simp
  finally show ?thesis by (simp add: x_def)
qed

lemma overflows_mono: "\<bar>x\<bar> \<le> \<bar>y\<bar> \<Longrightarrow> overflows x \<Longrightarrow> overflows y"
  by (simp add: overflows_def)

lemma to_double_mono: "x \<le> y \<Longrightarrow> dle (to_double x) (to_double y)"
proof -
  assume xy: "x \<le> y"
  have big: "(0::real) < 2 ^ 1024 - 2 ^ 970" by simp
  show ?thesis
  proof (cases "overflows x")
    case ox: True
    show ?thesis
    proof (cases "0 < x")
      case True
      with ox xy have "overflows y" "0 < y" by (auto simp add: overflows_def)
      with ox True show ?thesis by (simp add: to_double_def)
    next
      case False
      with ox show ?thesis by (cases "overflows y") (simp_all add: to_double_def)
    qed
  next
    case nx: False
    show ?thesis
    proof (cases "overflows y")
      case True
      have "0 < y"
      proof (rule ccontr)
        assume "\<not> 0 < y"
        with xy True have "overflows x" by (auto simp add: overflows_def)
        with nx show False by simp
      qed
      with True nx show ?thesis by (simp add: to_double_def)
    next
      case False
      with nx xy show ?thesis by (simp add: to_double_def round_double_mono)
    qed
  qed
qed

lemma dle_trans: "dle a b \<Longrightarrow> dle b c \<Longrightarrow> dle a c"
  by (cases a; cases b; cases c) simp_all

lemma to_double_not_NaN [simp]: "to_double x \<noteq> NaN"
  by (simp add: to_double_def)

lemma dle_MinusInf: "b \<noteq> NaN \<Longrightarrow> dle MinusInf b"
  by (cases b) simp_all

lemma dle_PlusInf: "a \<noteq> NaN \<Longrightarrow> dle a PlusInf"
  by (cases a) simp_all

lemma dle_refl: "a \<noteq> NaN \<Longrightarrow> dle a a"
  by (cases a) simp_all

lemma quotient_mono:
  assumes "0 < p" and "dle a b"
  shows "dle (ddiv a (Finite p)) (ddiv b (Finite p))"
proof (cases a)
  case fa: (Finite x)
  show ?thesis
  proof (cases b)
    case (Finite y)
    with fa assms have "x / p \<le> y / p" by (simp add: divide_right_mono)
    with fa Finite show ?thesis by (simp add: to_double_mono)
  next
    case PlusInf
    with fa assms show ?thesis by (simp add: dle_PlusInf)
  qed (use fa assms in simp_all)
next
  case PlusInf
  with assms show ?thesis by (cases b) simp_all
next
  case MinusInf
  with assms show ?thesis by (cases b) (simp_all add: dle_MinusInf)
next
  case NaN
  with assms show ?thesis by simp
qed

lemma dmul_mono:
  assumes "0 < c" and "dle a b"
  shows "dle (dmul a (Finite c)) (dmul b (Finite c))"
proof (cases a)
  case fa: (Finite x)
  show ?thesis
  proof (cases b)
    case (Finite y)
    with fa assms have "x * c \<le> y * c" by (simp add: mult_right_mono)
    with fa Finite show ?thesis by (simp add: to_double_mono)
  next
    case PlusInf
    with fa assms show ?thesis by (simp add: dle_PlusInf scaled_inf_def)
  qed (use fa assms in simp_all)
next
  case PlusInf
  with assms show ?thesis by (cases b) (simp_all add: scaled_inf_def)
next
  case MinusInf
  with assms show ?thesis by (cases b) (simp_all add: dle_MinusInf scaled_inf_def)
next
  case NaN
  with assms show ?thesis by simp
qed

lemma dsub_antimono:
  "x \<le> y \<Longrightarrow> dle (dsub (Finite p) (Finite y)) (dsub (Finite p) (Finite x))"
  by (simp add: dsub_def to_double_mono)

lemma to_double_nonpos: "x \<le> 0 \<Longrightarrow> dle (to_double x) (Finite 0)"
  using to_double_mono [of x 0] by (simp add: to_double_def overflows_def)

lemma to_double_nonneg: "0 \<le> x \<Longrightarrow> dle (Finite 0) (to_double x)"
  using to_double_mono [of 0 x] by (simp add: to_double_def overflows_def)

text \<open>The definitions that evaluate a float operation on given numbers.\<close>

lemmas float_eval =
  to_double_def overflows_def round_double_def quantum_def binade_def bitlen_def
  compute_floorlog round_half_even_def Let_def


section \<open>Stock never goes negative\<close>

lemma reserve_stock_nonneg:
  "0 \<le> stock p \<Longrightarrow> 0 \<le> stock (snd (reserve p q))"
  by (simp add: reserve_def)

lemma reserve_many_stock_nonneg:
  "0 \<le> stock p \<Longrightarrow> 0 \<le> stock (reserve_many p qs)"
  by (induction qs arbitrary: p) (simp_all add: reserve_stock_nonneg)

lemma update_values_all:
  "list_all P (map snd al) \<Longrightarrow> P v \<Longrightarrow> list_all P (map snd (AList.update k v al))"
  by (induction al) auto

lemma map_of_value_all:
  "list_all P (map snd al) \<Longrightarrow> map_of al k = Some v \<Longrightarrow> P v"
  by (induction al) (auto split: if_splits)

lemma reserve_product_stock_nonneg:
  assumes "list_all (\<lambda>p. 0 \<le> stock p) (list_products products)"
  shows "list_all (\<lambda>p. 0 \<le> stock p)
           (list_products (snd (reserve_product products key q)))"
proof (cases "map_of products key")
  case None
  then show ?thesis
    using assms by (simp add: reserve_product_def get_product_def)
next
  case (Some product)
  from assms have all: "list_all (\<lambda>p. 0 \<le> stock p) (map snd products)"
    by (simp only: list_products_def)
  from all Some have "0 \<le> stock product"
    by (rule map_of_value_all)
  then have new: "0 \<le> stock (snd (reserve product q))"
    by (rule reserve_stock_nonneg)
  from all new
  have "list_all (\<lambda>p. 0 \<le> stock p)
          (map snd (AList.update key (snd (reserve product q)) products))"
    by (rule update_values_all)
  then show ?thesis
    using Some
    by (cases "reserve product q")
       (simp add: reserve_product_def get_product_def list_products_def)
qed

lemma reserve_products_stock_nonneg:
  "list_all (\<lambda>p. 0 \<le> stock p) (list_products products) \<Longrightarrow>
   list_all (\<lambda>p. 0 \<le> stock p) (list_products (reserve_products products attempts))"
proof (induction attempts arbitrary: products)
  case Nil
  then show ?case by simp
next
  case (Cons a attempts)
  obtain key q where a: "a = (key, q)"
    by (cases a)
  from Cons.prems
  have "list_all (\<lambda>p. 0 \<le> stock p)
          (list_products (snd (reserve_product products key q)))"
    by (rule reserve_product_stock_nonneg)
  then show ?case
    using Cons.IH a by simp
qed

text \<open>
  Claim C10. \<open>reserve\<close> answers \<open>True\<close> and takes \<open>quantity\<close> off the stock exactly when
  the stock covers it, and otherwise answers \<open>False\<close> and leaves the product as it is;
  so a stock that is not negative stays so over any sequence of reservation attempts, on
  one product and on every product of a repository; and reserving an unknown product id
  answers \<open>False\<close> and leaves the repository as it is.
\<close>

theorem reserve_never_negative:
  "(quantity \<le> stock p \<longrightarrow> reserve p quantity = (True, p\<lparr>stock := stock p - quantity\<rparr>)) \<and>
   (stock p < quantity \<longrightarrow> reserve p quantity = (False, p)) \<and>
   (0 \<le> stock p \<longrightarrow> 0 \<le> stock (reserve_many p qs)) \<and>
   (get_product products key = None \<longrightarrow>
      reserve_product products key quantity = (False, products)) \<and>
   (list_all (\<lambda>p. 0 \<le> stock p) (list_products products) \<longrightarrow>
      list_all (\<lambda>p. 0 \<le> stock p) (list_products (reserve_products products attempts)))"
proof (intro conjI impI)
  show "reserve p quantity = (True, p\<lparr>stock := stock p - quantity\<rparr>)" if "quantity \<le> stock p"
    using that by (simp add: reserve_def)
  show "reserve p quantity = (False, p)" if "stock p < quantity"
    using that by (simp add: reserve_def)
  show "0 \<le> stock (reserve_many p qs)" if "0 \<le> stock p"
    using that by (rule reserve_many_stock_nonneg)
  show "reserve_product products key quantity = (False, products)"
    if "get_product products key = None"
    using that by (simp add: reserve_product_def)
  show "list_all (\<lambda>p. 0 \<le> stock p) (list_products (reserve_products products attempts))"
    if "list_all (\<lambda>p. 0 \<le> stock p) (list_products products)"
    using that by (rule reserve_products_stock_nonneg)
qed

theorem reserve_never_negative_witness:
  "reserve phone 2 = (True, phone\<lparr>stock := 0\<rparr>) \<and>
   reserve phone 3 = (False, phone) \<and>
   0 \<le> stock (reserve_many phone [1, 5, - 4, 2]) \<and>
   reserve_product [(''p1'', phone), (''p2'', laptop)] ''p9'' 2
     = (False, [(''p1'', phone), (''p2'', laptop)]) \<and>
   list_all (\<lambda>p. 0 \<le> stock p)
     (list_products
        (reserve_products [(''p1'', phone), (''p2'', laptop)]
           [(''p1'', 1), (''p9'', 1), (''p2'', 3), (''p1'', 1), (''p1'', 1)]))"
  using reserve_never_negative
          [of 2 phone "[1, 5, - 4, 2]" "[(''p1'', phone), (''p2'', laptop)]" "''p9''"
              "[(''p1'', 1), (''p9'', 1), (''p2'', 3), (''p1'', 1), (''p1'', 1)]"]
        reserve_never_negative [of 3 phone "[]" "[]" "''p9''" "[]"]
  by (simp add: phone_def laptop_def get_product_def list_products_def)

section \<open>Slot completeness and slot extraction\<close>


lemma product_id_not_missing:
  "product_id filled = PNone \<Longrightarrow> truthy (product_name filled) \<Longrightarrow>
   ''product_id'' \<notin> set (missing_slots_of filled required)"
  by (induction required) (simp_all add: slot_value_def)

text \<open>
  Claim C6. Completeness checking never reports \<open>product_id\<close> as missing when
  \<open>product_name\<close> is present: whatever the intent, when the slots have \<open>product_id\<close>
  unset (\<open>None\<close>) and a non-empty \<open>product_name\<close>, the list of missing slots does not
  contain \<open>product_id\<close>.
\<close>

theorem product_name_substitutes_product_id:
  "product_id filled = PNone \<Longrightarrow> truthy (product_name filled) \<Longrightarrow>
   ''product_id'' \<notin> set (snd (check_slots_completeness asked filled))"
  by (simp add: check_slots_completeness_def Let_def product_id_not_missing)

theorem product_name_substitutes_product_id_witness:
  "product_id (empty_slots\<lparr>product_name := PStr ''iPhone''\<rparr>) = PNone \<and>
   truthy (product_name (empty_slots\<lparr>product_name := PStr ''iPhone''\<rparr>)) \<and>
   ''product_id'' \<notin> set (snd (check_slots_completeness BARGAINING
                                   (empty_slots\<lparr>product_name := PStr ''iPhone''\<rparr>))) \<and>
   check_slots_completeness DELIVERY_QUESTION (empty_slots\<lparr>product_name := PStr ''iPhone''\<rparr>)
     = (True, []) \<and>
   check_slots_completeness BARGAINING (empty_slots\<lparr>product_name := PStr ''iPhone''\<rparr>)
     = (False, [''offered_price''])"
  using product_name_substitutes_product_id
          [of "empty_slots\<lparr>product_name := PStr ''iPhone''\<rparr>" BARGAINING]
  by (simp add: empty_slots_def check_slots_completeness_def slot_value_def)

lemma present_Nil: "\<not> present [] k"
  by (simp add: present_def)

lemma before_price_fields:
  "product_id (extract_before_price e cur) =
     (if present e ''product_id'' then entity e ''product_id'' else product_id cur)"
  "product_name (extract_before_price e cur) =
     (if present e ''product_name'' then entity e ''product_name'' else product_name cur)"
  "product_color (extract_before_price e cur) =
     (if present e ''product_color'' then entity e ''product_color''
      else if present e ''color'' then entity e ''color'' else product_color cur)"
  "product_memory (extract_before_price e cur) =
     (if present e ''product_memory'' then entity e ''product_memory''
      else if present e ''memory'' then entity e ''memory'' else product_memory cur)"
  "product_variant (extract_before_price e cur) =
     (if present e ''variant'' then entity e ''variant'' else product_variant cur)"
  "offered_price (extract_before_price e cur) = offered_price cur"
  "agreed_price (extract_before_price e cur) = agreed_price cur"
  "meeting_location (extract_before_price e cur) = meeting_location cur"
  "meeting_date (extract_before_price e cur) = meeting_date cur"
  "meeting_time (extract_before_price e cur) = meeting_time cur"
  "delivery_service (extract_before_price e cur) = delivery_service cur"
  "delivery_address (extract_before_price e cur) = delivery_address cur"
  "city (extract_before_price e cur) = city cur"
  "user_preference (extract_before_price e cur) = user_preference cur"
  by (simp_all add: extract_before_price_def Let_def)

lemma after_price_fields:
  "product_id (extract_after_price e s) = product_id s"
  "product_name (extract_after_price e s) = product_name s"
  "product_color (extract_after_price e s) = product_color s"
  "product_memory (extract_after_price e s) = product_memory s"
  "product_variant (extract_after_price e s) = product_variant s"
  "offered_price (extract_after_price e s) = offered_price s"
  "agreed_price (extract_after_price e s) = agreed_price s"
  "meeting_location (extract_after_price e s) =
     (if present e ''location'' then entity e ''location'' else meeting_location s)"
  "meeting_date (extract_after_price e s) =
     (if present e ''date'' then entity e ''date'' else meeting_date s)"
  "meeting_time (extract_after_price e s) =
     (if present e ''time'' then entity e ''time'' else meeting_time s)"
  "delivery_service (extract_after_price e s) =
     (if present e ''delivery_service'' then entity e ''delivery_service''
      else delivery_service s)"
  "delivery_address (extract_after_price e s) = delivery_address s"
  "city (extract_after_price e s) = (if present e ''city'' then entity e ''city'' else city s)"
  "user_preference (extract_after_price e s) = user_preference s"
  by (simp_all add: extract_after_price_def Let_def)

lemma extract_price_cases:
  assumes "extract_price f e s = Inr s'"
  shows "s' = s \<or> (present e ''price'' \<and> (\<exists>r. s' = s\<lparr>offered_price := PFloat r\<rparr>))"
  using assms
  by (auto simp: extract_price_def split: if_splits sum.splits)

lemma py_float_errors:
  "py_float f v = Inl err \<Longrightarrow> err = OverflowError \<or> err = ValueError \<or> err = TypeError"
  by (cases v) (simp_all add: py_float_def split: if_splits option.splits)

lemma extract_price_error:
  assumes "extract_price f e s = Inl err"
  shows "err = OverflowError \<and> present e ''price''"
proof (cases "present e ''price''")
  case False
  with assms show ?thesis
    by (simp add: extract_price_def)
next
  case True
  show ?thesis
  proof (cases "py_float f (entity e ''price'')")
    case (Inr r)
    with assms True show ?thesis
      by (simp add: extract_price_def)
  next
    case (Inl err')
    with assms True have "err' \<noteq> ValueError \<and> err' \<noteq> TypeError \<and> err = err'"
      by (simp add: extract_price_def split: if_splits)
    moreover from Inl have "err' = OverflowError \<or> err' = ValueError \<or> err' = TypeError"
      by (rule py_float_errors)
    ultimately show ?thesis
      using True by blast
  qed
qed

lemma present_truthy: "present e k \<Longrightarrow> truthy (entity e k)"
  by (auto simp: present_def entity_def dict_get_def get_or_def split: option.splits)

lemma truthy_not_None: "truthy v \<Longrightarrow> v \<noteq> PNone"
  by auto

lemma present_not_None: "present e k \<Longrightarrow> entity e k \<noteq> PNone"
  by (rule truthy_not_None) (rule present_truthy)

lemma extract_price_fields:
  assumes "extract_price f e s = Inr s'"
  shows
    "product_id s' = product_id s"
    "product_name s' = product_name s"
    "product_color s' = product_color s"
    "product_memory s' = product_memory s"
    "product_variant s' = product_variant s"
    "agreed_price s' = agreed_price s"
    "meeting_location s' = meeting_location s"
    "meeting_date s' = meeting_date s"
    "meeting_time s' = meeting_time s"
    "delivery_service s' = delivery_service s"
    "delivery_address s' = delivery_address s"
    "city s' = city s"
    "user_preference s' = user_preference s"
  using extract_price_cases [OF assms] by auto

lemma extract_price_offered:
  assumes "extract_price f e s = Inr s'"
  shows "offered_price s' = offered_price s \<or>
         (present e ''price'' \<and> (\<exists>r. offered_price s' = PFloat r))"
  using extract_price_cases [OF assms] by auto

lemma extract_slots_split:
  assumes "extract_slots_from_entities f e cur = Inr new"
  obtains s6 where "extract_price f e (extract_before_price e cur) = Inr s6"
    and "new = extract_after_price e s6"
  using assms
  by (cases "extract_price f e (extract_before_price e cur)")
     (simp_all add: extract_slots_from_entities_def)

lemma extract_slots_fields:
  assumes "extract_slots_from_entities f e cur = Inr new"
  shows
    "product_id new =
       (if present e ''product_id'' then entity e ''product_id'' else product_id cur)"
    "product_name new =
       (if present e ''product_name'' then entity e ''product_name'' else product_name cur)"
    "product_color new =
       (if present e ''product_color'' then entity e ''product_color''
        else if present e ''color'' then entity e ''color'' else product_color cur)"
    "product_memory new =
       (if present e ''product_memory'' then entity e ''product_memory''
        else if present e ''memory'' then entity e ''memory'' else product_memory cur)"
    "product_variant new =
       (if present e ''variant'' then entity e ''variant'' else product_variant cur)"
    "agreed_price new = agreed_price cur"
    "meeting_location new =
       (if present e ''location'' then entity e ''location'' else meeting_location cur)"
    "meeting_date new = (if present e ''date'' then entity e ''date'' else meeting_date cur)"
    "meeting_time new = (if present e ''time'' then entity e ''time'' else meeting_time cur)"
    "delivery_service new =
       (if present e ''delivery_service'' then entity e ''delivery_service''
        else delivery_service cur)"
    "delivery_address new = delivery_address cur"
    "city new = (if present e ''city'' then entity e ''city'' else city cur)"
    "user_preference new = user_preference cur"
proof -
  from assms obtain s6 where
    s6: "extract_price f e (extract_before_price e cur) = Inr s6" and
    new: "new = extract_after_price e s6"
    by (rule extract_slots_split)
  note fields = after_price_fields extract_price_fields [OF s6] before_price_fields
  show
    "product_id new =
       (if present e ''product_id'' then entity e ''product_id'' else product_id cur)"
    "product_name new =
       (if present e ''product_name'' then entity e ''product_name'' else product_name cur)"
    "product_color new =
       (if present e ''product_color'' then entity e ''product_color''
        else if present e ''color'' then entity e ''color'' else product_color cur)"
    "product_memory new =
       (if present e ''product_memory'' then entity e ''product_memory''
        else if present e ''memory'' then entity e ''memory'' else product_memory cur)"
    "product_variant new =
       (if present e ''variant'' then entity e ''variant'' else product_variant cur)"
    "agreed_price new = agreed_price cur"
    "meeting_location new =
       (if present e ''location'' then entity e ''location'' else meeting_location cur)"
    "meeting_date new = (if present e ''date'' then entity e ''date'' else meeting_date cur)"
    "meeting_time new = (if present e ''time'' then entity e ''time'' else meeting_time cur)"
    "delivery_service new =
       (if present e ''delivery_service'' then entity e ''delivery_service''
        else delivery_service cur)"
    "delivery_address new = delivery_address cur"
    "city new = (if present e ''city'' then entity e ''city'' else city cur)"
    "user_preference new = user_preference cur"
    unfolding new by (simp_all only: fields)
qed

lemma extract_slots_offered:
  assumes "extract_slots_from_entities f e cur = Inr new"
  shows "offered_price new = offered_price cur \<or>
         (present e ''price'' \<and> (\<exists>r. offered_price new = PFloat r))"
proof -
  from assms obtain s6 where
    s6: "extract_price f e (extract_before_price e cur) = Inr s6" and
    new: "new = extract_after_price e s6"
    by (rule extract_slots_split)
  from extract_price_offered [OF s6] show ?thesis
    unfolding new by (simp only: after_price_fields before_price_fields)
qed

lemma extract_slots_keeps_fields:
  assumes "extract_slots_from_entities f e cur = Inr new"
  shows
    "product_id cur \<noteq> PNone \<Longrightarrow> product_id new \<noteq> PNone"
    "product_name cur \<noteq> PNone \<Longrightarrow> product_name new \<noteq> PNone"
    "product_color cur \<noteq> PNone \<Longrightarrow> product_color new \<noteq> PNone"
    "product_memory cur \<noteq> PNone \<Longrightarrow> product_memory new \<noteq> PNone"
    "product_variant cur \<noteq> PNone \<Longrightarrow> product_variant new \<noteq> PNone"
    "agreed_price cur \<noteq> PNone \<Longrightarrow> agreed_price new \<noteq> PNone"
    "meeting_location cur \<noteq> PNone \<Longrightarrow> meeting_location new \<noteq> PNone"
    "meeting_date cur \<noteq> PNone \<Longrightarrow> meeting_date new \<noteq> PNone"
    "meeting_time cur \<noteq> PNone \<Longrightarrow> meeting_time new \<noteq> PNone"
    "delivery_service cur \<noteq> PNone \<Longrightarrow> delivery_service new \<noteq> PNone"
    "delivery_address cur \<noteq> PNone \<Longrightarrow> delivery_address new \<noteq> PNone"
    "city cur \<noteq> PNone \<Longrightarrow> city new \<noteq> PNone"
    "user_preference cur \<noteq> PNone \<Longrightarrow> user_preference new \<noteq> PNone"
    "offered_price cur \<noteq> PNone \<Longrightarrow> offered_price new \<noteq> PNone"
proof -
  note fields = extract_slots_fields [OF assms]
  show
    "product_id cur \<noteq> PNone \<Longrightarrow> product_id new \<noteq> PNone"
    "product_name cur \<noteq> PNone \<Longrightarrow> product_name new \<noteq> PNone"
    "product_color cur \<noteq> PNone \<Longrightarrow> product_color new \<noteq> PNone"
    "product_memory cur \<noteq> PNone \<Longrightarrow> product_memory new \<noteq> PNone"
    "product_variant cur \<noteq> PNone \<Longrightarrow> product_variant new \<noteq> PNone"
    "agreed_price cur \<noteq> PNone \<Longrightarrow> agreed_price new \<noteq> PNone"
    "meeting_location cur \<noteq> PNone \<Longrightarrow> meeting_location new \<noteq> PNone"
    "meeting_date cur \<noteq> PNone \<Longrightarrow> meeting_date new \<noteq> PNone"
    "meeting_time cur \<noteq> PNone \<Longrightarrow> meeting_time new \<noteq> PNone"
    "delivery_service cur \<noteq> PNone \<Longrightarrow> delivery_service new \<noteq> PNone"
    "delivery_address cur \<noteq> PNone \<Longrightarrow> delivery_address new \<noteq> PNone"
    "city cur \<noteq> PNone \<Longrightarrow> city new \<noteq> PNone"
    "user_preference cur \<noteq> PNone \<Longrightarrow> user_preference new \<noteq> PNone"
    by (simp_all add: fields present_not_None)
  show "offered_price cur \<noteq> PNone \<Longrightarrow> offered_price new \<noteq> PNone"
    using extract_slots_offered [OF assms] by auto
qed

lemma extract_slots_keeps_set:
  assumes "extract_slots_from_entities f e cur = Inr new"
    and "slot_value cur slot_name \<noteq> PNone"
  shows "slot_value new slot_name \<noteq> PNone"
proof -
  note keeps = extract_slots_keeps_fields [OF assms(1)]
  from assms(2) show ?thesis
    unfolding slot_value_def
    by (simp add: keeps split: if_splits)
qed

text \<open>
  Claim C9. Slot extraction is a non-destructive merge. With an empty entity map it
  returns the current slots unchanged. Whenever it returns, a slot field differs from the
  current one only if the entity map holds a present, truthy value under that field's key
  (\<open>product_color\<close> also reads \<open>color\<close>, \<open>product_memory\<close> also \<open>memory\<close>; the keys
  \<open>variant\<close>, \<open>price\<close>, \<open>location\<close>, \<open>date\<close> and \<open>time\<close> feed \<open>product_variant\<close>,
  \<open>offered_price\<close> and the meeting slots); \<open>agreed_price\<close>, \<open>delivery_address\<close> and
  \<open>user_preference\<close> are never touched; and no slot that was set becomes \<open>None\<close>. The
  only way not to return is the \<open>OverflowError\<close> of \<open>float\<close> on a present \<open>price\<close>.
\<close>

theorem extract_slots_non_destructive:
  "extract_slots_from_entities str_to_float [] current_slots = Inr current_slots \<and>
   (extract_slots_from_entities str_to_float entities current_slots = Inr new \<longrightarrow>
      (\<not> present entities ''product_id'' \<longrightarrow> product_id new = product_id current_slots) \<and>
      (\<not> present entities ''product_name'' \<longrightarrow> product_name new = product_name current_slots) \<and>
      (\<not> present entities ''product_color'' \<and> \<not> present entities ''color'' \<longrightarrow> product_color new = product_color current_slots) \<and>
      (\<not> present entities ''product_memory'' \<and> \<not> present entities ''memory'' \<longrightarrow> product_memory new = product_memory current_slots) \<and>
      (\<not> present entities ''variant'' \<longrightarrow> product_variant new = product_variant current_slots) \<and>
      (\<not> present entities ''price'' \<longrightarrow> offered_price new = offered_price current_slots) \<and>
      (\<not> present entities ''location'' \<longrightarrow> meeting_location new = meeting_location current_slots) \<and>
      (\<not> present entities ''date'' \<longrightarrow> meeting_date new = meeting_date current_slots) \<and>
      (\<not> present entities ''time'' \<longrightarrow> meeting_time new = meeting_time current_slots) \<and>
      (\<not> present entities ''delivery_service'' \<longrightarrow> delivery_service new = delivery_service current_slots) \<and>
      (\<not> present entities ''city'' \<longrightarrow> city new = city current_slots) \<and>
      agreed_price new = agreed_price current_slots \<and>
      delivery_address new = delivery_address current_slots \<and>
      user_preference new = user_preference current_slots \<and>
      (\<forall>slot_name. slot_value current_slots slot_name \<noteq> PNone \<longrightarrow>
                   slot_value new slot_name \<noteq> PNone)) \<and>
   (extract_slots_from_entities str_to_float entities current_slots = Inl err \<longrightarrow>
      err = OverflowError \<and> present entities ''price'')"
proof (intro conjI impI allI)
  show "extract_slots_from_entities str_to_float [] current_slots = Inr current_slots"
    by (simp add: extract_slots_from_entities_def extract_price_def extract_before_price_def
        extract_after_price_def present_Nil)
next
  assume ok: "extract_slots_from_entities str_to_float entities current_slots = Inr new"
  note fields = extract_slots_fields [OF ok]
  show "product_id new = product_id current_slots" if "\<not> present entities ''product_id''"
    using that by (simp add: fields)
  show "product_name new = product_name current_slots" if "\<not> present entities ''product_name''"
    using that by (simp add: fields)
  show "product_color new = product_color current_slots" if "\<not> present entities ''product_color'' \<and> \<not> present entities ''color''"
    using that by (simp add: fields)
  show "product_memory new = product_memory current_slots" if "\<not> present entities ''product_memory'' \<and> \<not> present entities ''memory''"
    using that by (simp add: fields)
  show "product_variant new = product_variant current_slots" if "\<not> present entities ''variant''"
    using that by (simp add: fields)
  show "meeting_location new = meeting_location current_slots" if "\<not> present entities ''location''"
    using that by (simp add: fields)
  show "meeting_date new = meeting_date current_slots" if "\<not> present entities ''date''"
    using that by (simp add: fields)
  show "meeting_time new = meeting_time current_slots" if "\<not> present entities ''time''"
    using that by (simp add: fields)
  show "delivery_service new = delivery_service current_slots" if "\<not> present entities ''delivery_service''"
    using that by (simp add: fields)
  show "city new = city current_slots" if "\<not> present entities ''city''"
    using that by (simp add: fields)
  show "offered_price new = offered_price current_slots" if "\<not> present entities ''price''"
    using that extract_slots_offered [OF ok] by simp
  show "agreed_price new = agreed_price current_slots"
    by (simp add: fields)
  show "delivery_address new = delivery_address current_slots"
    by (simp add: fields)
  show "user_preference new = user_preference current_slots"
    by (simp add: fields)
  show "slot_value new slot_name \<noteq> PNone" if "slot_value current_slots slot_name \<noteq> PNone"
    for slot_name
    using ok that by (rule extract_slots_keeps_set)
next
  assume bad: "extract_slots_from_entities str_to_float entities current_slots = Inl err"
  then have "extract_price str_to_float entities (extract_before_price entities current_slots)
               = Inl err"
    by (cases "extract_price str_to_float entities (extract_before_price entities current_slots)")
       (simp_all add: extract_slots_from_entities_def)
  then have both: "err = OverflowError \<and> present entities ''price''"
    by (rule extract_price_error)
  from both show "err = OverflowError" by simp
  from both show "present entities ''price''" by simp
qed

theorem extract_slots_non_destructive_witness:
  "extract_slots_from_entities (\<lambda>s. None) [] known_slots = Inr known_slots \<and>
   extract_slots_from_entities (\<lambda>s. None) new_entities known_slots
     = Inr (known_slots\<lparr>product_name := PStr ''iPhone'', offered_price := PFloat 90\<rparr>) \<and>
   product_id (known_slots\<lparr>product_name := PStr ''iPhone'', offered_price := PFloat 90\<rparr>)
     = product_id known_slots \<and>
   product_color (known_slots\<lparr>product_name := PStr ''iPhone'', offered_price := PFloat 90\<rparr>)
     = PStr ''black'' \<and>
   city (known_slots\<lparr>product_name := PStr ''iPhone'', offered_price := PFloat 90\<rparr>)
     = PStr ''Moscow'' \<and>
   slot_value (known_slots\<lparr>product_name := PStr ''iPhone'', offered_price := PFloat 90\<rparr>)
     ''product_id'' \<noteq> PNone"
  using extract_slots_non_destructive
          [of "\<lambda>s. None" known_slots new_entities
              "known_slots\<lparr>product_name := PStr ''iPhone'', offered_price := PFloat 90\<rparr>"
              OverflowError]
  by (simp add: known_slots_def empty_slots_def new_entities_def
      extract_slots_from_entities_def extract_price_def extract_before_price_def
      extract_after_price_def present_def entity_def dict_get_def get_or_def py_float_def
      int_fits_float_def slot_value_def)


section \<open>Negotiation decisions\<close>

lemma discount_percent_value:
  "price p \<noteq> 0 \<Longrightarrow>
   discount_percent p x =
     Inr (dmul (ddiv (to_double (price p - x)) (Finite (price p))) (Finite 100))"
  by (simp add: discount_percent_def py_div_def dsub_def Let_def)

lemma discount_percent_zero:
  "price p = 0 \<Longrightarrow> discount_percent p x = Inl ZeroDivisionError"
  by (simp add: discount_percent_def py_div_def Let_def)

lemma discount_percent_antimono:
  assumes "0 < price p" and "x \<le> y"
    and "discount_percent p x = Inr dx" and "discount_percent p y = Inr dy"
  shows "dle dy dx"
proof -
  from assms(1) have nz: "price p \<noteq> 0" by simp
  from assms(2) have "dle (to_double (price p - y)) (to_double (price p - x))"
    by (intro to_double_mono) simp
  then have "dle (ddiv (to_double (price p - y)) (Finite (price p)))
                 (ddiv (to_double (price p - x)) (Finite (price p)))"
    using assms(1) by (intro quotient_mono)
  then have "dle (dmul (ddiv (to_double (price p - y)) (Finite (price p))) (Finite 100))
                 (dmul (ddiv (to_double (price p - x)) (Finite (price p))) (Finite 100))"
    by (intro dmul_mono) simp_all
  with assms(3,4) show ?thesis by (simp add: discount_percent_value [OF nz])
qed

lemma discount_percent_negative_price:
  assumes "price p < 0" and "x < price p" and "discount_percent p x = Inr d"
  shows "dle d (Finite 0)"
proof -
  from assms(1) have nz: "price p \<noteq> 0" by simp
  define a where "a = to_double (price p - x)"
  have a0: "dle (Finite 0) a" unfolding a_def using assms(2) by (intro to_double_nonneg) simp
  have q: "dle (ddiv a (Finite (price p))) (Finite 0)"
  proof (cases a)
    case (Finite r)
    with a0 have "0 \<le> r" by simp
    with assms(1) have "r / price p \<le> 0" by (simp add: divide_nonneg_neg)
    with Finite show ?thesis by (simp add: to_double_nonpos)
  next
    case PlusInf
    with assms(1) show ?thesis by simp
  qed (use a0 in simp_all)
  have "dle (dmul (ddiv a (Finite (price p))) (Finite 100)) (dmul (Finite 0) (Finite 100))"
    using q by (intro dmul_mono) simp_all
  moreover have "dmul (Finite 0) (Finite 100) = Finite 0"
    by (simp add: to_double_def overflows_def)
  ultimately show ?thesis
    using assms(3) by (simp add: discount_percent_value [OF nz] a_def)
qed

lemma favorability_le_2: "favorability v \<le> 2"
  by (simp add: favorability_def)

lemma evaluate_offer_bands:
  assumes "can_bargain p" and "x < price p" and "discount_percent p x = Inr d"
  shows "evaluate_offer p x =
           Inr (if dle d (Finite (max_discount_percent p)) then (''accept'', Some (Finite x))
                else if dle d (dmul (Finite (max_discount_percent p)) (Finite 1.5))
                then (''counter_offer'', calculate_counter_offer p x)
                else (''decline'', Some (calculate_min_acceptable_price p)))"
  using assms by (simp add: evaluate_offer_def Let_def)

lemma evaluate_offer_monotone:
  assumes "x \<le> y"
    and "evaluate_offer p x = Inr (vx, cx)" and "evaluate_offer p y = Inr (vy, cy)"
  shows "favorability vx \<le> favorability vy"
proof (cases "can_bargain p")
  case False
  with assms show ?thesis by (simp add: evaluate_offer_def)
next
  case cb: True
  show ?thesis
  proof (cases "price p \<le> y")
    case True
    with cb assms(3) have "vy = ''accept''" by (simp add: evaluate_offer_def)
    then show ?thesis by (simp add: favorability_def)
  next
    case False
    then have yp: "y < price p" and xp: "x < price p" using assms(1) by simp_all
    show ?thesis
    proof (cases "price p = 0")
      case True
      with cb xp assms(2) show ?thesis
        by (simp add: evaluate_offer_def discount_percent_zero)
    next
      case nz: False
      obtain dx where dx: "discount_percent p x = Inr dx"
        by (simp add: discount_percent_value [OF nz])
      obtain dy where dy: "discount_percent p y = Inr dy"
        by (simp add: discount_percent_value [OF nz])
      note ex = evaluate_offer_bands [OF cb xp dx]
      note ey = evaluate_offer_bands [OF cb yp dy]
      show ?thesis
      proof (cases "0 < price p")
        case True
        have le: "dle dy dx" using True assms(1) dx dy by (rule discount_percent_antimono)
        let ?m = "Finite (max_discount_percent p)"
        let ?n = "dmul (Finite (max_discount_percent p)) (Finite 1.5)"
        show ?thesis
        proof (cases "dle dx ?m")
          case True
          with le have "dle dy ?m" by (rule dle_trans)
          with assms(3) have "vy = ''accept''" unfolding ey by simp
          then show ?thesis by (simp add: favorability_def)
        next
          case nm: False
          show ?thesis
          proof (cases "dle dx ?n")
            case True
            with le have n: "dle dy ?n" by (rule dle_trans)
            from nm True assms(2) have "vx = ''counter_offer''" unfolding ex by simp
            moreover from n assms(3) have "vy = ''accept'' \<or> vy = ''counter_offer''"
              unfolding ey by (cases "dle dy ?m") simp_all
            ultimately show ?thesis by (auto simp add: favorability_def)
          next
            case False
            with nm assms(2) have "vx = ''decline''" unfolding ex by simp
            then show ?thesis by (simp add: favorability_def)
          qed
        qed
      next
        case False
        with nz have neg: "price p < 0" by simp
        from cb have md: "0 < max_discount_percent p" by (simp add: can_bargain_def)
        have "dle dy (Finite 0)" using neg yp dy by (rule discount_percent_negative_price)
        moreover have "dle (Finite 0) (Finite (max_discount_percent p))" using md by simp
        ultimately have "dle dy (Finite (max_discount_percent p))" by (rule dle_trans)
        with assms(3) show ?thesis unfolding ey by (simp add: favorability_def)
      qed
    qed
  qed
qed

lemma phone_floor: "calculate_min_acceptable_price phone = Finite 90"
  by (simp add: calculate_min_acceptable_price_def phone_def dsub_def dmax_def dlt_def float_eval)

lemma phone_88: "discount_percent phone 88 = Inr (Finite 12)"
  by (simp add: discount_percent_def phone_def py_div_def dsub_def float_eval)

lemma tablet_floor: "calculate_min_acceptable_price tablet = Finite 93"
  by (simp add: calculate_min_acceptable_price_def tablet_def phone_def dsub_def dmax_def dlt_def
      float_eval)

lemma tablet_93: "discount_percent tablet 93 = Inr (Finite (7 + 1 / 2 ^ 50))"
  by (simp add: discount_percent_def tablet_def phone_def py_div_def dsub_def float_eval)

lemma phone_fields:
  "price phone = 100" "max_discount_percent phone = 10" "min_price phone = 80"
  "can_bargain phone" "price tablet = 100" "max_discount_percent tablet = 7"
  "can_bargain tablet" "\<not> can_bargain laptop" "price laptop = 500"
  by (simp_all add: phone_def tablet_def laptop_def can_bargain_def)

lemma phone_counter: "calculate_counter_offer phone 88 = Some (Finite 94)"
  by (simp add: calculate_counter_offer_def is_price_acceptable_def phone_floor phone_fields
      dmax_def dlt_def float_eval)

lemma tablet_counter: "calculate_counter_offer tablet 93 = None"
  by (simp add: calculate_counter_offer_def is_price_acceptable_def tablet_floor)

lemma discount_bounds:
  "to_double 15 = Finite 15" "to_double (21 / 2) = Finite (21 / 2)"
  by (simp_all add: float_eval)

lemma phone_discounts:
  "discount_percent phone 95 = Inr (Finite 5)" "discount_percent phone 80 = Inr (Finite 20)"
  by (simp_all add: discount_percent_def phone_fields py_div_def dsub_def float_eval)

lemma trinket_fields:
  "price trinket = 3" "max_discount_percent trinket = 40" "min_price trinket = 1"
  "can_bargain trinket"
  by (simp_all add: trinket_def phone_def can_bargain_def)

lemma literals:
  "round_double (6 / 5) = 5404319552844595 / 2 ^ 52"
  "round_double (21 / 10) = 4728779608739021 / 2 ^ 51"
  by (simp_all add: float_eval)

lemma trinket_60: "discount_percent trinket (5404319552844595 / 2 ^ 52) = Inr (Finite 60)"
  by (simp add: discount_percent_def trinket_fields py_div_def dsub_def float_eval)

lemma trinket_floor:
  "calculate_min_acceptable_price trinket = Finite (2026619832316723 / 2 ^ 50)"
  by (simp add: calculate_min_acceptable_price_def trinket_fields dsub_def dmax_def dlt_def
      float_eval)

lemma trinket_counter:
  "calculate_counter_offer trinket (5404319552844595 / 2 ^ 52)
     = Some (Finite (4728779608739021 / 2 ^ 51))"
  by (simp add: calculate_counter_offer_def is_price_acceptable_def trinket_floor trinket_fields
      dmax_def dlt_def float_eval)

lemma phone_offers:
  "evaluate_offer phone 95 = Inr (''accept'', Some (Finite 95))"
  "evaluate_offer phone 88 = Inr (''counter_offer'', Some (Finite 94))"
  "evaluate_offer phone 80 = Inr (''decline'', Some (Finite 90))"
  by (simp_all add: evaluate_offer_def phone_fields phone_discounts phone_88 discount_bounds
      phone_counter phone_floor)

lemma tablet_offer: "evaluate_offer tablet 93 = Inr (''counter_offer'', None)"
  by (simp add: evaluate_offer_def phone_fields tablet_93 discount_bounds tablet_counter)

text \<open>
  Claim C4, as the code has it. A product that cannot bargain gets \<open>decline\<close> for every
  offer. For a product that can bargain, an offer at or above the list price is accepted.
  Below the list price a list price of zero raises \<open>ZeroDivisionError\<close>; otherwise the
  decision follows the discount percentage the code computes in float arithmetic,
  \<open>((price - offer) / price) * 100\<close>: \<open>accept\<close> when it is at most \<open>max_discount_percent\<close>,
  \<open>counter_offer\<close> (with the price of \<open>calculate_counter_offer\<close>) when it is above that
  and at most \<open>max_discount_percent * 1.5\<close>, \<open>decline\<close> (with the minimum acceptable
  price) when it is above both. For a fixed product the decision never becomes less
  favourable to the buyer as the offer increases, wherever the evaluation returns.
\<close>

theorem evaluate_offer_decisions:
  "(\<not> can_bargain p \<longrightarrow> evaluate_offer p x = Inr (''decline'', None)) \<and>
   (can_bargain p \<and> price p \<le> x \<longrightarrow>
      evaluate_offer p x = Inr (''accept'', Some (Finite x))) \<and>
   (can_bargain p \<and> x < price p \<and> price p = 0 \<longrightarrow>
      evaluate_offer p x = Inl ZeroDivisionError) \<and>
   (price p \<noteq> 0 \<longrightarrow>
      discount_percent p x =
        Inr (dmul (ddiv (dsub (Finite (price p)) (Finite x)) (Finite (price p)))
               (Finite 100))) \<and>
   (can_bargain p \<and> x < price p \<and> discount_percent p x = Inr d \<longrightarrow>
      (dle d (Finite (max_discount_percent p)) \<longrightarrow>
         evaluate_offer p x = Inr (''accept'', Some (Finite x))) \<and>
      (\<not> dle d (Finite (max_discount_percent p)) \<and>
       dle d (dmul (Finite (max_discount_percent p)) (Finite 1.5)) \<longrightarrow>
         evaluate_offer p x = Inr (''counter_offer'', calculate_counter_offer p x)) \<and>
      (\<not> dle d (Finite (max_discount_percent p)) \<and>
       \<not> dle d (dmul (Finite (max_discount_percent p)) (Finite 1.5)) \<longrightarrow>
         evaluate_offer p x = Inr (''decline'', Some (calculate_min_acceptable_price p)))) \<and>
   (x \<le> y \<and> evaluate_offer p x = Inr (vx, cx) \<and> evaluate_offer p y = Inr (vy, cy) \<longrightarrow>
      favorability vx \<le> favorability vy)"
proof -
  have 1: "\<not> can_bargain p \<longrightarrow> evaluate_offer p x = Inr (''decline'', None)"
    by (simp add: evaluate_offer_def)
  have 2: "can_bargain p \<and> price p \<le> x \<longrightarrow>
      evaluate_offer p x = Inr (''accept'', Some (Finite x))"
    by (simp add: evaluate_offer_def)
  have 3: "can_bargain p \<and> x < price p \<and> price p = 0 \<longrightarrow>
      evaluate_offer p x = Inl ZeroDivisionError"
    by (simp add: evaluate_offer_def discount_percent_zero)
  have 4: "price p \<noteq> 0 \<longrightarrow>
      discount_percent p x =
        Inr (dmul (ddiv (dsub (Finite (price p)) (Finite x)) (Finite (price p)))
               (Finite 100))"
    by (simp add: discount_percent_def py_div_def Let_def)
  have 5: "can_bargain p \<and> x < price p \<and> discount_percent p x = Inr d \<longrightarrow>
      (dle d (Finite (max_discount_percent p)) \<longrightarrow>
         evaluate_offer p x = Inr (''accept'', Some (Finite x))) \<and>
      (\<not> dle d (Finite (max_discount_percent p)) \<and>
       dle d (dmul (Finite (max_discount_percent p)) (Finite 1.5)) \<longrightarrow>
         evaluate_offer p x = Inr (''counter_offer'', calculate_counter_offer p x)) \<and>
      (\<not> dle d (Finite (max_discount_percent p)) \<and>
       \<not> dle d (dmul (Finite (max_discount_percent p)) (Finite 1.5)) \<longrightarrow>
         evaluate_offer p x = Inr (''decline'', Some (calculate_min_acceptable_price p)))"
    by (simp add: evaluate_offer_bands)
  have 6: "x \<le> y \<and> evaluate_offer p x = Inr (vx, cx) \<and> evaluate_offer p y = Inr (vy, cy) \<longrightarrow>
      favorability vx \<le> favorability vy"
    using evaluate_offer_monotone [of x y p vx cx vy cy] by blast
  from 1 2 3 4 5 6 show ?thesis
    by - (intro conjI; assumption)
qed

theorem evaluate_offer_decisions_witness:
  "can_bargain phone \<and> \<not> can_bargain laptop \<and>
   evaluate_offer laptop 400 = Inr (''decline'', None) \<and>
   evaluate_offer phone 100 = Inr (''accept'', Some (Finite 100)) \<and>
   discount_percent phone 88 = Inr (Finite 12) \<and>
   evaluate_offer phone 88 = Inr (''counter_offer'', Some (Finite 94)) \<and>
   evaluate_offer phone 95 = Inr (''accept'', Some (Finite 95)) \<and>
   evaluate_offer phone 80 = Inr (''decline'', Some (Finite 90)) \<and>
   favorability ''counter_offer'' \<le> favorability ''accept'' \<and>
   discount_percent tablet 93 = Inr (Finite (7 + 1 / 2 ^ 50)) \<and>
   evaluate_offer tablet 93 = Inr (''counter_offer'', None) \<and>
   discount_percent trinket (round_double 1.2) = Inr (Finite 60) \<and>
   evaluate_offer trinket (round_double 1.2)
     = Inr (''counter_offer'', Some (Finite (round_double 2.1))) \<and>
   evaluate_offer (phone\<lparr>price := 0\<rparr>) (- 1) = Inl ZeroDivisionError"
proof -
  have z: "can_bargain (phone\<lparr>price := 0\<rparr>)"
    by (simp add: can_bargain_def phone_def)
  note a = evaluate_offer_decisions [of laptop 400 "Finite 0" 400 "''decline''" None "''decline''" None]
  note b = evaluate_offer_decisions [of phone 100 "Finite 0" 100 "''accept''" "Some (Finite 100)"
             "''accept''" "Some (Finite 100)"]
  note c = evaluate_offer_decisions [of phone 88 "Finite 12" 95 "''counter_offer''"
             "Some (Finite 94)" "''accept''" "Some (Finite 95)"]
  note d = evaluate_offer_decisions [of phone 95 "Finite 5" 95 "''accept''" "Some (Finite 95)"
             "''accept''" "Some (Finite 95)"]
  note e = evaluate_offer_decisions [of phone 80 "Finite 20" 80 "''decline''" "Some (Finite 90)"
             "''decline''" "Some (Finite 90)"]
  note f = evaluate_offer_decisions [of tablet 93 "Finite (7 + 1 / 2 ^ 50)" 93 "''counter_offer''"
             None "''counter_offer''" None]
  note g = evaluate_offer_decisions [of "phone\<lparr>price := 0\<rparr>" "- 1" "Finite 0" "- 1"
             "''decline''" None "''decline''" None]
  note h = evaluate_offer_decisions [of trinket "5404319552844595 / 2 ^ 52" "Finite 60"
             "5404319552844595 / 2 ^ 52" "''counter_offer''"
             "Some (Finite (4728779608739021 / 2 ^ 51))" "''counter_offer''"
             "Some (Finite (4728779608739021 / 2 ^ 51))"]
  have 9: "evaluate_offer trinket (5404319552844595 / 2 ^ 52)
             = Inr (''counter_offer'', Some (Finite (4728779608739021 / 2 ^ 51)))"
    using h trinket_60 trinket_counter by (simp add: trinket_fields float_eval)
  have 1: "evaluate_offer laptop 400 = Inr (''decline'', None)"
    using a by (simp add: phone_fields)
  have 2: "evaluate_offer phone 100 = Inr (''accept'', Some (Finite 100))"
    using b by (simp add: phone_fields)
  have 3: "evaluate_offer phone 88 = Inr (''counter_offer'', Some (Finite 94))"
    using c by (simp add: phone_fields phone_88 discount_bounds phone_counter)
  have 4: "evaluate_offer phone 95 = Inr (''accept'', Some (Finite 95))"
    using d by (simp add: phone_fields phone_discounts)
  have 5: "evaluate_offer phone 80 = Inr (''decline'', Some (Finite 90))"
    using e by (simp add: phone_fields phone_discounts discount_bounds phone_floor)
  have 6: "favorability ''counter_offer'' \<le> favorability ''accept''"
    using c 3 4 by simp
  have 7: "evaluate_offer tablet 93 = Inr (''counter_offer'', None)"
    using f by (simp add: phone_fields tablet_93 discount_bounds tablet_counter)
  have 8: "evaluate_offer (phone\<lparr>price := 0\<rparr>) (- 1) = Inl ZeroDivisionError"
    using g z by simp
  from 1 2 3 4 5 6 7 8 9 phone_88 tablet_93 trinket_60 show ?thesis
    by (simp add: phone_fields literals)
qed

text \<open>
  The claim fails in two ways. The laptop cannot bargain, so an offer of its list price
  is declined, not accepted. The phone has a minimum acceptable price of 90; an offer of
  88 is below it, but its discount of 12 percent is within one and a half times the
  maximum discount of 10 percent, and the answer is the counter offer 94, not a decline.
\<close>

theorem evaluate_offer_counterexample:
  "price laptop \<le> 500 \<and>
   evaluate_offer laptop 500 = Inr (''decline'', None) \<and>
   calculate_min_acceptable_price phone = Finite 90 \<and>
   dlt (Finite 88) (calculate_min_acceptable_price phone) \<and>
   evaluate_offer phone 88 = Inr (''counter_offer'', Some (Finite 94))"
  by (simp add: phone_floor phone_offers dlt_def phone_fields)
     (simp add: evaluate_offer_def phone_fields)


section \<open>The adaptive cutoff of retrieval\<close>


lemma filter_results_fixed:
  assumes low: "\<forall>r \<in> set S. t \<le> score r"
    and near: "\<forall>r \<in> set S. score (hd S) - 0.3 \<le> score r"
  shows "filter_results t S = S"
proof (cases S)
  case Nil
  then show ?thesis by (simp add: filter_results_def)
next
  case (Cons y ys)
  from low have f1: "filter (\<lambda>r. t \<le> score r) S = S"
    by (simp add: filter_id_conv)
  from low near Cons have "\<forall>r \<in> set S. max t (score y - 0.3) \<le> score r"
    by simp
  then have f2: "filter (\<lambda>r. max t (score y - 0.3) \<le> score r) S = S"
    by (simp only: filter_id_conv)
  show ?thesis
    unfolding filter_results_def Let_def f1
    using f2 Cons by simp
qed

lemma filter_results_bounds:
  "\<forall>r \<in> set (filter_results t xs). t \<le> score r"
  "\<forall>r \<in> set (filter_results t xs).
      score (hd (filter_results t xs)) - 0.3 \<le> score r"
proof -
  let ?f = "filter (\<lambda>r. t \<le> score r) xs"
  show "\<forall>r \<in> set (filter_results t xs). t \<le> score r"
    by (cases ?f) (auto simp: filter_results_def Let_def)
  show "\<forall>r \<in> set (filter_results t xs).
      score (hd (filter_results t xs)) - 0.3 \<le> score r"
  proof (cases ?f)
    case Nil
    then show ?thesis by (simp add: filter_results_def)
  next
    case (Cons y ys)
    then have "y \<in> set ?f" by simp
    then have ty: "t \<le> score y" by simp
    then have keep: "max t (score y - 0.3) \<le> score y" by simp
    have R: "filter_results t xs
               = y # filter (\<lambda>r. max t (score y - 0.3) \<le> score r) ys"
      using Cons keep by (simp add: filter_results_def Let_def)
    show ?thesis
      unfolding R by auto
  qed
qed

lemma filter_results_take_fixed:
  "filter_results t (take n (filter_results t xs)) = take n (filter_results t xs)"
proof (cases "take n (filter_results t xs)")
  case Nil
  show ?thesis
    unfolding Nil by (simp add: filter_results_def)
next
  case (Cons y ys)
  then have hd_eq: "hd (take n (filter_results t xs)) = hd (filter_results t xs)"
    by (cases n; cases "filter_results t xs") simp_all
  have sub: "set (take n (filter_results t xs)) \<subseteq> set (filter_results t xs)"
    by (rule set_take_subset)
  show ?thesis
  proof (rule filter_results_fixed)
    show "\<forall>r \<in> set (take n (filter_results t xs)). t \<le> score r"
      using sub filter_results_bounds(1) [of t xs] by blast
    show "\<forall>r \<in> set (take n (filter_results t xs)).
            score (hd (take n (filter_results t xs))) - 0.3 \<le> score r"
      unfolding hd_eq using sub filter_results_bounds(2) [of t xs] by blast
  qed
qed

lemma filter_results_idem:
  "filter_results t (filter_results t xs) = filter_results t xs"
  using filter_results_take_fixed [of t "length (filter_results t xs)" xs] by simp

text \<open>
  Claim C7. The threshold filter with its adaptive cutoff is idempotent: applied to a
  list it has already filtered, it returns that list. This holds for every input list,
  sorted or not, since the first survivor always survives the cutoff and stays first;
  and it still holds when each application is followed by the cut to the first \<open>k\<close>
  matches that \<open>retrieve\<close> makes, for \<open>k\<close> not negative.
\<close>

theorem adaptive_cutoff_idempotent:
  "filter_results t (filter_results t xs) = filter_results t xs \<and>
   (0 \<le> k \<longrightarrow>
      slice_to (filter_results t (slice_to (filter_results t xs) k)) k
        = slice_to (filter_results t xs) k)"
proof (intro conjI impI)
  show "filter_results t (filter_results t xs) = filter_results t xs"
    by (rule filter_results_idem)
  show "slice_to (filter_results t (slice_to (filter_results t xs) k)) k
          = slice_to (filter_results t xs) k" if "0 \<le> k"
    using that by (simp add: slice_to_def filter_results_take_fixed)
qed

theorem adaptive_cutoff_idempotent_witness:
  "filter_results 0.5 four_matches = [scored ''p1'' 0.9, scored ''p2'' 0.7] \<and>
   filter_results 0.5 (filter_results 0.5 four_matches) = filter_results 0.5 four_matches \<and>
   (0::int) \<le> 1 \<and>
   slice_to (filter_results 0.5 (slice_to (filter_results 0.5 four_matches) 1)) 1
     = [scored ''p1'' 0.9]"
  using adaptive_cutoff_idempotent [of "0.5" four_matches 1]
  by (simp add: four_matches_def filter_results_def slice_to_def scored_def)


section \<open>The regeneration bound of reflection\<close>

lemma reflection_node_count:
  "regenerations_done (reflection_node state verdict) =
     regenerations_done state +
       (if needs_regeneration (reflection_node state verdict) = Some True then 1 else 0)"
  by (simp add: reflection_node_def regenerations_done_def Let_def get_or_def)

lemma reflection_node_asks:
  "needs_regeneration (reflection_node state verdict) = Some True \<Longrightarrow>
   regenerations_done state < 2"
  by (simp add: reflection_node_def regenerations_done_def Let_def split: if_splits)

lemma reflection_node_exhausted:
  "2 \<le> regenerations_done state \<Longrightarrow>
   needs_regeneration (reflection_node state verdict) = Some False"
  by (simp add: reflection_node_def regenerations_done_def Let_def)

lemma generate_response_count:
  "regenerations_done (generate_response_node state generated) = regenerations_done state"
  by (simp add: generate_response_node_def regenerations_done_def)

lemma regenerate_asks:
  "route_after_reflection state = ''regenerate'' \<Longrightarrow> needs_regeneration state = Some True"
  by (cases "needs_regeneration state") (simp_all add: route_after_reflection_def get_or_def split: if_splits)

lemma round_count:
  "regenerations_done state
     \<le> regenerations_done (reflection_node (generate_response_node state g) v)"
  by (simp add: reflection_node_count generate_response_count)

lemma round_bound:
  "regenerations_done state \<le> 2 \<Longrightarrow>
   regenerations_done (reflection_node (generate_response_node state g) v) \<le> 2"
  using reflection_node_asks [of "generate_response_node state g" v]
  by (cases "needs_regeneration (reflection_node (generate_response_node state g) v) = Some True")
     (simp_all add: reflection_node_count generate_response_count)

lemma rounds_count:
  "regenerations_done state \<le> regenerations_done (reflection_rounds state turns)"
proof (induction turns arbitrary: state)
  case Nil
  show ?case by simp
next
  case (Cons turn rest)
  let ?r = "reflection_node (generate_response_node state (fst turn)) (snd turn)"
  have a: "regenerations_done state \<le> regenerations_done ?r" by (rule round_count)
  show ?case
  proof (cases "route_after_reflection ?r = ''regenerate''")
    case True
    from Cons.IH [of ?r] a True show ?thesis by (simp add: Let_def)
  next
    case False
    with a show ?thesis by (simp add: Let_def)
  qed
qed

lemma rounds_bound:
  "regenerations_done state \<le> 2 \<Longrightarrow> regenerations_done (reflection_rounds state turns) \<le> 2"
proof (induction turns arbitrary: state)
  case Nil
  then show ?case by simp
next
  case (Cons turn rest)
  let ?r = "reflection_node (generate_response_node state (fst turn)) (snd turn)"
  from Cons.prems have a: "regenerations_done ?r \<le> 2" by (rule round_bound)
  show ?case
  proof (cases "route_after_reflection ?r = ''regenerate''")
    case True
    from Cons.IH [OF a] True show ?thesis by (simp add: Let_def)
  next
    case False
    with a show ?thesis by (simp add: Let_def)
  qed
qed

lemma regenerations_bound:
  "int (regenerations state turns) \<le> max 0 (2 - regenerations_done state)"
proof (induction turns arbitrary: state)
  case Nil
  show ?case by simp
next
  case (Cons turn rest)
  let ?g = "generate_response_node state (fst turn)"
  let ?r = "reflection_node ?g (snd turn)"
  show ?case
  proof (cases "route_after_reflection ?r = ''regenerate''")
    case True
    then have n: "needs_regeneration ?r = Some True" by (rule regenerate_asks)
    then have lt: "regenerations_done state < 2"
      using reflection_node_asks [of ?g "snd turn"] by (simp add: generate_response_count)
    from n have c: "regenerations_done ?r = regenerations_done state + 1"
      by (simp add: reflection_node_count [of ?g] generate_response_count)
    from Cons.IH [of ?r] c lt True show ?thesis by (simp add: Let_def)
  next
    case False
    then show ?thesis by (simp add: Let_def)
  qed
qed

text \<open>
  Claim C1. From a state whose \<open>regeneration_count\<close> is at least 2, \<open>reflection_node\<close>
  returns \<open>needs_regeneration = False\<close> whatever the verdict of the validator, and the
  graph goes to the end. A reflection adds 1 to the counter exactly when it asks for a
  regeneration and leaves it as it is otherwise, so the counter never decreases, and a
  counter of at most 2 stays at most 2; generating a response does not touch it. The same
  holds along the whole cycle of generation and reflection, whatever is generated and
  whatever the verdicts are; a turn, which starts without the key, asks for at most two
  regenerations.
\<close>

theorem regeneration_bounded:
  "(2 \<le> regenerations_done state \<longrightarrow>
      needs_regeneration (reflection_node state verdict) = Some False \<and>
      route_after_reflection (reflection_node state verdict) = ''end'') \<and>
   regenerations_done (reflection_node state verdict) =
     regenerations_done state +
       (if needs_regeneration (reflection_node state verdict) = Some True then 1 else 0) \<and>
   (regenerations_done state \<le> 2 \<longrightarrow> regenerations_done (reflection_node state verdict) \<le> 2) \<and>
   regenerations_done (generate_response_node state generated) = regenerations_done state \<and>
   regenerations_done state \<le> regenerations_done (reflection_rounds state turns) \<and>
   (regenerations_done state \<le> 2 \<longrightarrow>
      regenerations_done (reflection_rounds state turns) \<le> 2) \<and>
   (regeneration_count state = None \<longrightarrow>
      regenerations state turns \<le> 2 \<and>
      regenerations_done (reflection_rounds state turns) \<le> 2)"
proof -
  have a: "2 \<le> regenerations_done state \<longrightarrow>
      needs_regeneration (reflection_node state verdict) = Some False \<and>
      route_after_reflection (reflection_node state verdict) = ''end''"
    by (simp add: reflection_node_exhausted route_after_reflection_def get_or_def)
  have b: "regenerations_done state \<le> 2 \<longrightarrow>
      regenerations_done (reflection_node state verdict) \<le> 2"
    using reflection_node_asks [of state verdict]
    by (cases "needs_regeneration (reflection_node state verdict) = Some True")
       (simp_all add: reflection_node_count)
  have c: "regeneration_count state = None \<longrightarrow>
      regenerations state turns \<le> 2 \<and>
      regenerations_done (reflection_rounds state turns) \<le> 2"
  proof
    assume n: "regeneration_count state = None"
    then have z: "regenerations_done state = 0" by (simp add: regenerations_done_def get_or_def)
    from regenerations_bound [of state turns] z have "regenerations state turns \<le> 2" by simp
    moreover from z have "regenerations_done (reflection_rounds state turns) \<le> 2"
      by (simp add: rounds_bound)
    ultimately show "regenerations state turns \<le> 2 \<and>
      regenerations_done (reflection_rounds state turns) \<le> 2" by simp
  qed
  note d = reflection_node_count [of state verdict]
  note e = generate_response_count [of state generated]
  note f = rounds_count [of state turns]
  have g: "regenerations_done state \<le> 2 \<longrightarrow>
      regenerations_done (reflection_rounds state turns) \<le> 2"
    by (simp add: rounds_bound)
  from a d b e f g c show ?thesis
    by - (intro conjI; assumption)
qed

theorem regeneration_bounded_witness:
  "2 \<le> regenerations_done exhausted_state \<and>
   needs_regeneration (reflection_node exhausted_state rejecting_verdict) = Some False \<and>
   route_after_reflection (reflection_node exhausted_state rejecting_verdict) = ''end'' \<and>
   regeneration_count initial_state = None \<and>
   regenerations initial_state (replicate 5 (PStr ''It costs 1'', rejecting_verdict)) = 2 \<and>
   regeneration_count
     (reflection_rounds initial_state (replicate 5 (PStr ''It costs 1'', rejecting_verdict)))
     = Some 2 \<and>
   regenerations_done
     (reflection_rounds initial_state (replicate 5 (PStr ''It costs 1'', rejecting_verdict)))
     \<le> 2"
  using regeneration_bounded [of exhausted_state rejecting_verdict "PStr []" "[]"]
        regeneration_bounded [of initial_state rejecting_verdict "PStr []"
          "replicate 5 (PStr ''It costs 1'', rejecting_verdict)"]
  by (simp add: exhausted_state_def initial_state_def rejecting_verdict_def
      regenerations_done_def get_or_def reflection_node_def generate_response_node_def
      route_after_reflection_def reflection_logging_raises_def dict_get_def get_truthy_def
      format_float_def py_len_def sliceable_def Let_def numeral_eq_Suc)


section \<open>Routing by complexity\<close>

lemma route_by_complexity_rules:
  "route_by_complexity state =
     (let intent_value = get_or (intent state) (PStr ''general_question'');
          slot_values = get_or (slots state) []
      in if intent_value = PStr ''bargaining'' \<or> intent_value = PStr ''meeting_planning''
         then ''planning''
         else if intent_value = PStr ''delivery_question'' \<or>
                 intent_value = PStr ''warranty_question''
         then (if dict_get slot_values ''product_name'' PNone \<noteq> PNone \<and>
                  \<not> truthy (dict_get slot_values ''product_id'' PNone) \<and>
                  \<not> get_truthy (state_product_id state)
               then ''planning'' else ''intelligent_router'')
         else if get_or (intent_confidence state) 0.5 < 0.7 \<and>
                 \<not> get_or (slots_complete state) False
         then ''planning'' else ''intelligent_router'')"
  by (simp add: route_by_complexity_def Let_def)

text \<open>
  Claim C5 says that the third rule (confidence below 0.7 and incomplete slots give
  \<open>planning\<close>) is evaluated whenever the first two do not match. In \<open>route_by_complexity\<close>
  the third rule is the \<open>elif\<close> of the test \<open>intent in product_dependent_intents\<close>, not of
  the second rule itself, which is the \<open>if\<close> nested under that test. For a delivery
  question without a product name, with confidence 0.5 and incomplete slots, neither the
  first nor the second rule matches, the conditions of the third hold, and the request
  still goes to \<open>intelligent_router\<close>.
\<close>

theorem low_confidence_rule_skipped:
  "intent delivery_state = Some (PStr ''delivery_question'') \<and>
   dict_get (get_or (slots delivery_state) []) ''product_name'' PNone = PNone \<and>
   get_or (intent_confidence delivery_state) 0.5 < 0.7 \<and>
   \<not> get_or (slots_complete delivery_state) False \<and>
   route_by_complexity delivery_state = ''intelligent_router''"
  by (simp add: delivery_state_def initial_state_def route_by_complexity_def Let_def
      get_or_def dict_get_def get_truthy_def)


section \<open>The action chosen after the routing decision\<close>

lemma get_or_simps: "get_or None dflt = dflt" "get_or (Some x) dflt = x"
  by (simp_all add: get_or_def)

lemma valid_route_lookup:
  "get_or (map_of valid_routes name) ''rag_search'' =
     (if name \<in> set valid_nodes then name else ''rag_search'')"
  by (simp add: valid_routes_def valid_nodes_def get_or_def)

lemma route_from_cases:
  "route_from_intelligent_router state =
     (case routing_decision state of
        None \<Rightarrow> Inr ''rag_search''
      | Some v \<Rightarrow>
          if \<not> hashable v then Inl TypeError
          else if v \<in> set (map PStr valid_nodes) then Inr (case v of PStr name \<Rightarrow> name)
          else Inr ''rag_search'')"
proof (cases "routing_decision state")
  case None
  then show ?thesis
    by (simp add: route_from_intelligent_router_def get_or_simps hashable_def
        valid_route_lookup valid_nodes_def)
next
  case (Some v)
  then show ?thesis
    by (cases v)
       (auto simp add: route_from_intelligent_router_def get_or_simps hashable_def
          valid_route_lookup)
qed

lemma rag_search_valid: "''rag_search'' \<in> set valid_nodes"
  by (simp add: valid_nodes_def)

lemma route_from_in_set:
  "route_from_intelligent_router state = Inr a \<Longrightarrow> a \<in> set valid_nodes"
  by (auto simp add: route_from_cases rag_search_valid split: option.splits if_splits)

lemma routed_action_in_set:
  "routed_action logs_errors state reply = Inr a \<Longrightarrow> a \<in> set valid_nodes"
  by (auto simp add: routed_action_def route_from_in_set split: sum.splits)

lemma coerced_next_node:
  "dict_get (AList.update ''next_node'' (PStr ''generate_response'') result) ''next_node'' dflt
     = PStr ''generate_response''"
  by (simp add: dict_get_def get_or_def update_conv')

lemma route_decision_coerces:
  "dict_get result ''next_node'' PNone \<notin> set (map PStr valid_nodes) \<Longrightarrow>
   route_decision logs_errors (Parsed (PDict result))
     = Inr (AList.update ''next_node'' (PStr ''generate_response'') result)"
  by (simp add: route_decision_def)

lemma route_decision_keeps:
  "dict_get result ''next_node'' PNone \<in> set (map PStr valid_nodes) \<Longrightarrow>
   route_decision logs_errors (Parsed (PDict result)) = Inr result"
  by (simp add: route_decision_def)

lemma route_decision_fallback:
  "\<not> (\<exists>result. reply = Parsed (PDict result)) \<Longrightarrow>
   route_decision logs_errors reply
     = (if logs_errors then Inl KeyError else Inr routing_fallback)"
proof (cases reply)
  case CallFailed
  then show ?thesis by (simp add: route_decision_def)
next
  case (Parsed v)
  assume "\<not> (\<exists>result. reply = Parsed (PDict result))"
  with Parsed show ?thesis by (cases v) (simp_all add: route_decision_def)
qed

lemma route_decision_valid:
  assumes "route_decision logs_errors reply = Inr routing_result"
  shows "dict_get routing_result ''next_node'' (PStr ''rag_search'')
           \<in> set (map PStr valid_nodes)"
proof (cases "\<exists>result. reply = Parsed (PDict result)")
  case False
  from assms route_decision_fallback [OF False, of logs_errors]
  have "routing_result = routing_fallback" by (simp split: if_splits)
  then show ?thesis
    by (simp add: routing_fallback_def dict_get_def get_or_def valid_nodes_def)
next
  case True
  then obtain result where r: "reply = Parsed (PDict result)" ..
  show ?thesis
  proof (cases "dict_get result ''next_node'' PNone \<in> set (map PStr valid_nodes)")
    case True
    then have "dict_get result ''next_node'' (PStr ''rag_search'')
                 = dict_get result ''next_node'' PNone"
      by (cases "map_of result ''next_node''") (auto simp add: dict_get_def get_or_def)
    with True assms r show ?thesis by (simp add: route_decision_keeps)
  next
    case False
    with assms r have "routing_result = AList.update ''next_node'' (PStr ''generate_response'') result"
      by (simp add: route_decision_coerces)
    then show ?thesis by (simp add: coerced_next_node) (simp add: valid_nodes_def)
  qed
qed

lemma plan_route:
  assumes "user_message state \<noteq> None" and "plan_action state = Inr (Some v)"
  shows "routed_action logs_errors state reply =
           route_from_intelligent_router (state\<lparr>routing_decision := Some v\<rparr>)"
  using assms
  by (cases "user_message state")
     (simp_all add: routed_action_def intelligent_route_node_def
        route_from_intelligent_router_def)

lemma llm_route:
  assumes "user_message state \<noteq> None" and "plan_action state = Inr None"
    and "route_decision logs_errors reply = Inr routing_result"
    and "routing_print_error routing_result = None"
  shows "routed_action logs_errors state reply =
           route_from_intelligent_router
             (state\<lparr>routing_decision :=
                      Some (dict_get routing_result ''next_node'' (PStr ''rag_search''))\<rparr>)"
  using assms
  by (cases "user_message state")
     (simp_all add: routed_action_def intelligent_route_node_def
        route_from_intelligent_router_def)

lemma route_from_update:
  "route_from_intelligent_router (state\<lparr>routing_decision := Some v\<rparr>) =
     (if \<not> hashable v then Inl TypeError
      else if v \<in> set (map PStr valid_nodes) then Inr (case v of PStr name \<Rightarrow> name)
      else Inr ''rag_search'')"
  by (simp add: route_from_cases)

text \<open>
  Claim C3, as the code has it. Whenever the conditional edge after the routing node
  returns, the action it names is one of \<open>rag_search\<close>, \<open>stock_check\<close>, \<open>delivery_check\<close>,
  \<open>bargaining\<close>, \<open>meeting_planning\<close>, \<open>generate_response\<close>; the same holds for the node
  followed by its edge. A \<open>routing_decision\<close> that is absent, or hashable and outside this
  set, is coerced to \<open>rag_search\<close> (not to \<open>generate_response\<close>); one inside the set is
  returned as it is; a list or a dictionary raises \<open>TypeError\<close>. Coercion to
  \<open>generate_response\<close> happens in \<open>route_decision\<close> only, for the \<open>next_node\<close> of an answer
  of the language model: whatever \<open>route_decision\<close> returns has a \<open>next_node\<close> inside the set,
  so an out-of-set answer of the model ends as \<open>generate_response\<close>, while the action of a
  step of the execution plan is not checked and, out of the set, ends as \<open>rag_search\<close>.
\<close>

theorem routed_action_valid:
  "(route_from_intelligent_router state = Inr a \<longrightarrow> a \<in> set valid_nodes) \<and>
   (routed_action logs_errors state reply = Inr b \<longrightarrow> b \<in> set valid_nodes) \<and>
   (routing_decision state = None \<longrightarrow> route_from_intelligent_router state = Inr ''rag_search'') \<and>
   (routing_decision state = Some v \<and> hashable v \<and> v \<notin> set (map PStr valid_nodes) \<longrightarrow>
      route_from_intelligent_router state = Inr ''rag_search'') \<and>
   (routing_decision state = Some v \<and> \<not> hashable v \<longrightarrow>
      route_from_intelligent_router state = Inl TypeError) \<and>
   (routing_decision state = Some (PStr name) \<and> name \<in> set valid_nodes \<longrightarrow>
      route_from_intelligent_router state = Inr name) \<and>
   (dict_get result ''next_node'' PNone \<notin> set (map PStr valid_nodes) \<longrightarrow>
      route_decision logs_errors (Parsed (PDict result))
        = Inr (AList.update ''next_node'' (PStr ''generate_response'') result) \<and>
      dict_get (AList.update ''next_node'' (PStr ''generate_response'') result)
        ''next_node'' (PStr ''rag_search'') = PStr ''generate_response'') \<and>
   (route_decision logs_errors reply = Inr routing_result \<longrightarrow>
      dict_get routing_result ''next_node'' (PStr ''rag_search'')
        \<in> set (map PStr valid_nodes)) \<and>
   (user_message state \<noteq> None \<and> plan_action state = Inr None \<and>
    dict_get result ''next_node'' PNone \<notin> set (map PStr valid_nodes) \<and>
    routing_print_error (AList.update ''next_node'' (PStr ''generate_response'') result)
      = None \<longrightarrow>
      routed_action logs_errors state (Parsed (PDict result)) = Inr ''generate_response'') \<and>
   (user_message state \<noteq> None \<and> plan_action state = Inr (Some v) \<and>
    hashable v \<and> v \<notin> set (map PStr valid_nodes) \<longrightarrow>
      routed_action logs_errors state reply = Inr ''rag_search'')"
proof -
  have 1: "route_from_intelligent_router state = Inr a \<longrightarrow> a \<in> set valid_nodes"
    by (simp add: route_from_in_set)
  have 2: "routed_action logs_errors state reply = Inr b \<longrightarrow> b \<in> set valid_nodes"
    by (simp add: routed_action_in_set)
  have 3: "routing_decision state = None \<longrightarrow>
      route_from_intelligent_router state = Inr ''rag_search''"
    by (simp add: route_from_cases)
  have 4: "routing_decision state = Some v \<and> hashable v \<and> v \<notin> set (map PStr valid_nodes) \<longrightarrow>
      route_from_intelligent_router state = Inr ''rag_search''"
    by (simp add: route_from_cases)
  have 5: "routing_decision state = Some v \<and> \<not> hashable v \<longrightarrow>
      route_from_intelligent_router state = Inl TypeError"
    by (simp add: route_from_cases)
  have 6: "routing_decision state = Some (PStr name) \<and> name \<in> set valid_nodes \<longrightarrow>
      route_from_intelligent_router state = Inr name"
    by (simp add: route_from_cases hashable_def)
  have 7: "dict_get result ''next_node'' PNone \<notin> set (map PStr valid_nodes) \<longrightarrow>
      route_decision logs_errors (Parsed (PDict result))
        = Inr (AList.update ''next_node'' (PStr ''generate_response'') result) \<and>
      dict_get (AList.update ''next_node'' (PStr ''generate_response'') result)
        ''next_node'' (PStr ''rag_search'') = PStr ''generate_response''"
    by (simp add: route_decision_coerces coerced_next_node)
  have 8: "route_decision logs_errors reply = Inr routing_result \<longrightarrow>
      dict_get routing_result ''next_node'' (PStr ''rag_search'')
        \<in> set (map PStr valid_nodes)"
    by (rule impI) (rule route_decision_valid)
  have 9: "user_message state \<noteq> None \<and> plan_action state = Inr None \<and>
    dict_get result ''next_node'' PNone \<notin> set (map PStr valid_nodes) \<and>
    routing_print_error (AList.update ''next_node'' (PStr ''generate_response'') result)
      = None \<longrightarrow>
      routed_action logs_errors state (Parsed (PDict result)) = Inr ''generate_response''"
  proof (intro impI, elim conjE)
    assume u: "user_message state \<noteq> None" and p: "plan_action state = Inr None"
      and n: "dict_get result ''next_node'' PNone \<notin> set (map PStr valid_nodes)"
      and e: "routing_print_error
                (AList.update ''next_node'' (PStr ''generate_response'') result) = None"
    show "routed_action logs_errors state (Parsed (PDict result)) = Inr ''generate_response''"
      unfolding llm_route [OF u p route_decision_coerces [OF n] e] coerced_next_node
      by (simp add: route_from_update hashable_def valid_nodes_def)
  qed
  have 10: "user_message state \<noteq> None \<and> plan_action state = Inr (Some v) \<and>
    hashable v \<and> v \<notin> set (map PStr valid_nodes) \<longrightarrow>
      routed_action logs_errors state reply = Inr ''rag_search''"
  proof (intro impI, elim conjE)
    assume u: "user_message state \<noteq> None" and p: "plan_action state = Inr (Some v)"
      and h: "hashable v" and n: "v \<notin> set (map PStr valid_nodes)"
    show "routed_action logs_errors state reply = Inr ''rag_search''"
      unfolding plan_route [OF u p] using h n by (simp add: route_from_update)
  qed
  from 1 2 3 4 5 6 7 8 9 10 show ?thesis
    by - (intro conjI; assumption)
qed

lemma planned_action: "plan_action planned_state = Inr (Some (PStr ''clarification''))"
  by (simp add: plan_action_def planned_state_def initial_state_def get_or_def dict_get_def
      list_index_def Let_def)

lemma initial_action: "plan_action initial_state = Inr None"
  by (simp add: plan_action_def initial_state_def get_or_def Let_def)

lemma stray_next_node:
  "dict_get stray_result ''next_node'' PNone \<notin> set (map PStr valid_nodes)"
  by (simp add: stray_result_def dict_get_def get_or_def valid_nodes_def)

lemma stray_prints:
  "routing_print_error (AList.update ''next_node'' (PStr ''generate_response'') stray_result)
     = None"
  by (simp add: stray_result_def routing_print_error_def dict_get_def get_or_def
      format_float_def sliceable_def is_str_def Let_def)

theorem routed_action_valid_witness:
  "routed_action True planned_state stray_reply = Inr ''rag_search'' \<and>
   ''rag_search'' \<in> set valid_nodes \<and>
   route_decision True stray_reply
     = Inr (AList.update ''next_node'' (PStr ''generate_response'') stray_result) \<and>
   routed_action True initial_state stray_reply = Inr ''generate_response'' \<and>
   route_from_intelligent_router initial_state = Inr ''rag_search'' \<and>
   route_from_intelligent_router
     (initial_state\<lparr>routing_decision := Some (PStr ''stock_check'')\<rparr>) = Inr ''stock_check'' \<and>
   route_from_intelligent_router
     (initial_state\<lparr>routing_decision := Some (PList [])\<rparr>) = Inl TypeError"
proof -
  note a = routed_action_valid
             [of planned_state "''rag_search''" True stray_reply "''rag_search''"
                 "PStr ''clarification''" "''x''" stray_result
                 "AList.update ''next_node'' (PStr ''generate_response'') stray_result"]
  note b = routed_action_valid
             [of initial_state "''rag_search''" True stray_reply "''generate_response''"
                 "PStr ''clarification''" "''x''" stray_result
                 "AList.update ''next_node'' (PStr ''generate_response'') stray_result"]
  note c = routed_action_valid
             [of "initial_state\<lparr>routing_decision := Some (PStr ''stock_check'')\<rparr>"
                 "''stock_check''" True stray_reply "''rag_search''"
                 "PStr ''stock_check''" "''stock_check''" stray_result "[]"]
  note d = routed_action_valid
             [of "initial_state\<lparr>routing_decision := Some (PList [])\<rparr>"
                 "''stock_check''" True stray_reply "''rag_search''"
                 "PList []" "''stock_check''" stray_result "[]"]
  have u: "user_message planned_state \<noteq> None" "user_message initial_state \<noteq> None"
          "routing_decision initial_state = None"
    by (simp_all add: planned_state_def initial_state_def)
  from a u(1) planned_action
  have 1: "routed_action True planned_state stray_reply = Inr ''rag_search''"
    by (simp add: hashable_def valid_nodes_def)
  from b stray_next_node
  have 2: "route_decision True stray_reply
     = Inr (AList.update ''next_node'' (PStr ''generate_response'') stray_result)"
    by (simp add: stray_reply_def)
  from b u(2) initial_action stray_prints stray_next_node
  have 3: "routed_action True initial_state stray_reply = Inr ''generate_response''"
    by (simp add: stray_reply_def)
  from b u(3) have 4: "route_from_intelligent_router initial_state = Inr ''rag_search''"
    by simp
  from c have 5: "route_from_intelligent_router
     (initial_state\<lparr>routing_decision := Some (PStr ''stock_check'')\<rparr>) = Inr ''stock_check''"
    by (simp add: valid_nodes_def)
  from d have 6: "route_from_intelligent_router
     (initial_state\<lparr>routing_decision := Some (PList [])\<rparr>) = Inl TypeError"
    by (simp add: hashable_def)
  from 1 2 3 4 5 6 show ?thesis by (simp add: valid_nodes_def)
qed

text \<open>
  The coercion to \<open>generate_response\<close> fails for the plan whose only step has the action
  \<open>clarification\<close>, which is outside the set: the node stores it as the routing decision
  and the edge answers \<open>rag_search\<close>; so does the edge on a state that holds this
  decision.
\<close>

theorem routed_action_counterexample:
  "PStr ''clarification'' \<notin> set (map PStr valid_nodes) \<and>
   plan_action planned_state = Inr (Some (PStr ''clarification'')) \<and>
   routed_action True planned_state stray_reply = Inr ''rag_search'' \<and>
   route_from_intelligent_router
     (initial_state\<lparr>routing_decision := Some (PStr ''clarification'')\<rparr>) = Inr ''rag_search'' \<and>
   ''rag_search'' \<noteq> ''generate_response''"
proof -
  have u: "user_message planned_state \<noteq> None"
    by (simp add: planned_state_def initial_state_def)
  have "routed_action True planned_state stray_reply = Inr ''rag_search''"
    unfolding plan_route [OF u planned_action]
    by (simp add: route_from_update hashable_def valid_nodes_def)
  then show ?thesis
    by (simp add: planned_action route_from_update hashable_def valid_nodes_def)
qed

end
